theory Spec2Isabelle
  imports Main
begin

section \<open>Values, results and thrown errors\<close>

text \<open>
  The registry is TypeScript. Values of type \<open>unknown\<close> (command parameters, the
  entries of an execution context) are modelled by a small datatype of JavaScript
  values; numbers are integers here, nothing below computes with them.
  Any function of the source can throw, and an asynchronous one can reject: a handler,
  a middleware, the confirm predicate, and the callbacks \<open>evaluateWhen\<close>,
  \<open>contextProvider\<close>, \<open>isEnabled\<close> and \<open>isVisible\<close> all return a sum, \<open>Inl\<close> what was
  thrown.
\<close>

datatype jsval =
    JUndefined
  | JNull
  | JBool bool
  | JNum int
  | JStr string
  | JArr "jsval list"
  | JObj "(string \<times> jsval) list"

text \<open>JavaScript truthiness, as used by \<open>if (x)\<close>, \<open>!x\<close> and \<open>x && y\<close>.\<close>

fun truthy :: "jsval \<Rightarrow> bool" where
  "truthy JUndefined = False"
| "truthy JNull = False"
| "truthy (JBool b) = b"
| "truthy (JNum n) = (n \<noteq> 0)"
| "truthy (JStr s) = (s \<noteq> [])"
| "truthy (JArr xs) = True"
| "truthy (JObj kvs) = True"

text \<open>\<open>x ?? d\<close>: the default replaces only \<open>undefined\<close> and \<open>null\<close>.\<close>

fun nullish_or :: "jsval \<Rightarrow> jsval \<Rightarrow> jsval" where
  "nullish_or JUndefined d = d"
| "nullish_or JNull d = d"
| "nullish_or v d = v"

text \<open>
  \<open>v.surface\<close> for a truthy \<open>v\<close>: the property of an object, \<open>undefined\<close> on a
  primitive or when the object has no such key.
\<close>

fun surface_of :: "jsval \<Rightarrow> jsval" where
  "surface_of (JObj kvs) = (case map_of kvs ''surface'' of Some x \<Rightarrow> x | None \<Rightarrow> JUndefined)"
| "surface_of v = JUndefined"

text \<open>
  An execution context is an object literal built by spreads; it is the finite map of
  its own keys, and the spread \<open>{...a, ...b}\<close> is \<open>a ++ b\<close>.
\<close>

type_synonym CommandContext = "string \<rightharpoonup> jsval"

record CommandResult =
  success :: bool
  message :: "string option"
  data :: "jsval option"

text \<open>
  The schema is a capability of an external library (Zod). It is modelled by its
  \<open>safeParse\<close>: a candidate value is either rejected with a \<open>ZodError\<close> (a message and
  the list of issues, each a field path and a message) or accepted with the parsed
  value. \<open>parse\<close> is \<open>safeParse\<close> that throws the error.
\<close>

record issue =
  path :: "string list"
  issue_message :: string

record ZodError =
  zod_message :: string
  issues :: "issue list"

text \<open>
  What a \<open>throw\<close> or a rejected promise carries: an \<open>Error\<close> with its message (a
  \<open>TypeError\<close> is one), a \<open>ZodError\<close> (a subclass of \<open>Error\<close>), or any other value,
  kept as \<open>String(value)\<close>. \<open>error_text\<close> is the source's
  \<open>err instanceof Error ? err.message : String(err)\<close>.
\<close>

datatype thrown = ErrorObj string | ZodErr ZodError | NonError string

fun error_text :: "thrown \<Rightarrow> string" where
  "error_text (ErrorObj m) = m"
| "error_text (ZodErr z) = zod_message z"
| "error_text (NonError s) = s"

type_synonym outcome = "thrown + CommandResult"

type_synonym zschema = "jsval \<Rightarrow> ZodError + jsval"

definition schema_parse :: "zschema \<Rightarrow> jsval \<Rightarrow> thrown + jsval" where
  "schema_parse s v = (case s v of Inl z \<Rightarrow> Inl (ZodErr z) | Inr x \<Rightarrow> Inr x)"

section \<open>Command definitions (define-command.ts)\<close>

record Keybinding =
  key :: string
  ctrl :: "bool option"
  shift :: "bool option"
  alt :: "bool option"
  meta :: "bool option"

datatype risk = RiskLow | RiskMedium | RiskHigh

record PolicyMetadata =
  readOnly :: "bool option"
  idempotent :: "bool option"
  riskLevel :: "risk option"
  meta_requiresConfirmation :: "bool option"

text \<open>
  \<open>CommandDefinition\<close>. The field \<open>id\<close> is \<open>cmd_id\<close>, \<open>when\<close> is \<open>when_clause\<close>,
  \<open>keywords\<close> is \<open>cmd_keywords\<close>, the handler \<open>execute\<close> is \<open>cmd_execute\<close> and the
  \<open>requiresConfirmation\<close> of the policy metadata is \<open>meta_requiresConfirmation\<close>; an
  optional field is an \<open>option\<close>. The handler resolves with a result or rejects.
  \<open>inputComponent\<close>, a value for the palette that no code of the runtime reads, is
  not part of the record. \<open>frozen\<close> is not a field of the object but its state: whether
  \<open>Object.freeze\<close> was applied to it, which makes its properties read-only.
\<close>

record CommandDefinition =
  cmd_id :: string
  label :: string
  category :: string
  description :: "string option"
  schema :: "zschema option"
  keybinding :: "Keybinding option"
  when_clause :: "string option"
  requiresConfirmation :: "bool option"
  tags :: "string list option"
  metadata :: "PolicyMetadata option"
  isVisible :: "(CommandContext \<Rightarrow> thrown + bool) option"
  isEnabled :: "(CommandContext \<Rightarrow> thrown + bool) option"
  cmd_keywords :: "string list option"
  cmd_execute :: "jsval \<Rightarrow> CommandContext \<Rightarrow> outcome"
  frozen :: bool

text \<open>
  \<open>resolveMetadata\<close>: the effective policy metadata;
  \<open>def.metadata?.requiresConfirmation ?? def.requiresConfirmation ?? false\<close>.
\<close>

definition opt_chain :: "'a option \<Rightarrow> 'a option \<Rightarrow> 'a option" where
  "opt_chain a b = (case a of Some x \<Rightarrow> Some x | None \<Rightarrow> b)"

definition resolveMetadata :: "CommandDefinition \<Rightarrow> PolicyMetadata" where
  "resolveMetadata d =
     \<lparr> readOnly = Some (case Option.bind (metadata d) readOnly of Some b \<Rightarrow> b | None \<Rightarrow> False),
       idempotent = Some (case Option.bind (metadata d) idempotent of Some b \<Rightarrow> b | None \<Rightarrow> False),
       riskLevel = Some (case Option.bind (metadata d) riskLevel of Some r \<Rightarrow> r | None \<Rightarrow> RiskMedium),
       meta_requiresConfirmation =
         Some (case opt_chain (Option.bind (metadata d) meta_requiresConfirmation)
                              (requiresConfirmation d) of
                 Some b \<Rightarrow> b | None \<Rightarrow> False) \<rparr>"

text \<open>
  \<open>defineCommand\<close>: refuses a definition whose \<open>id\<close>, \<open>label\<close> or \<open>category\<close> is
  empty (the handler is always present in this model), and returns the definition
  itself, frozen.
\<close>

definition defineCommand :: "CommandDefinition \<Rightarrow> thrown + CommandDefinition" where
  "defineCommand d =
     (if cmd_id d = [] \<or> label d = [] \<or> category d = []
      then Inl (ErrorObj (''[wrapex] Invalid command definition: id, label, category, and execute are required. Got id=\"''
                          @ cmd_id d @ ''\"''))
      else Inr (d\<lparr> frozen := True \<rparr>))"

section \<open>Plain objects as dictionaries\<close>

text \<open>
  The registry keeps \<open>commands\<close> and \<open>owners\<close> in plain objects, and the sample
  evaluator its \<open>context\<close>. Reading \<open>obj[k]\<close> on such an object finds the object's own
  property first and then what it inherits: the members of \<open>Object.prototype\<close>, which
  are functions (listed here with their \<open>length\<close>), and \<open>__proto__\<close>, which reads the
  prototype itself.
\<close>

definition object_prototype_functions :: "(string \<times> nat) list" where
  "object_prototype_functions =
     [(''constructor'', 1), (''__defineGetter__'', 2), (''__defineSetter__'', 2),
      (''hasOwnProperty'', 1), (''__lookupGetter__'', 1), (''__lookupSetter__'', 1),
      (''isPrototypeOf'', 1), (''propertyIsEnumerable'', 1), (''toString'', 0),
      (''valueOf'', 0), (''toLocaleString'', 0)]"

text \<open>
  What a read of the \<open>commands\<close> object can give besides a command definition: a
  function of \<open>Object.prototype\<close>, \<open>Object.prototype\<close> itself, or, when a definition
  has become the prototype of the object (see \<open>assign_property\<close>), the value of one of
  that definition's fields.
\<close>

datatype member =
    PrototypeFunction string
  | PrototypeObject
  | StringValue string
  | BooleanValue bool
  | StringArray "string list"
  | KeybindingValue Keybinding
  | MetadataValue PolicyMetadata
  | SchemaValue zschema
  | FunctionValue string

fun member_truthy :: "member \<Rightarrow> bool" where
  "member_truthy (StringValue s) = (s \<noteq> [])"
| "member_truthy (BooleanValue b) = b"
| "member_truthy m = True"

text \<open>\<open>m.length\<close>, where the source reads it (\<open>ids.length === 0\<close>); \<open>None\<close> is \<open>undefined\<close>.\<close>

fun member_length :: "member \<Rightarrow> nat option" where
  "member_length (PrototypeFunction k) = map_of object_prototype_functions k"
| "member_length (StringValue s) = Some (length s)"
| "member_length (StringArray xs) = Some (length xs)"
| "member_length m = None"

definition prototype_member :: "string \<Rightarrow> member option" where
  "prototype_member k =
     (if k = ''__proto__'' then Some PrototypeObject
      else if k \<in> set (map fst object_prototype_functions) then Some (PrototypeFunction k)
      else None)"

text \<open>The own property \<open>k\<close> of a definition object, by the field it names.\<close>

definition field_member :: "CommandDefinition \<Rightarrow> string \<Rightarrow> member option" where
  "field_member d k =
     (if k = ''id'' then Some (StringValue (cmd_id d))
      else if k = ''label'' then Some (StringValue (label d))
      else if k = ''category'' then Some (StringValue (category d))
      else if k = ''description'' then map_option StringValue (description d)
      else if k = ''schema'' then map_option SchemaValue (schema d)
      else if k = ''keybinding'' then map_option KeybindingValue (keybinding d)
      else if k = ''when'' then map_option StringValue (when_clause d)
      else if k = ''requiresConfirmation'' then map_option BooleanValue (requiresConfirmation d)
      else if k = ''tags'' then map_option StringArray (tags d)
      else if k = ''metadata'' then map_option MetadataValue (metadata d)
      else if k = ''isVisible'' then map_option (\<lambda>f. FunctionValue ''isVisible'') (isVisible d)
      else if k = ''isEnabled'' then map_option (\<lambda>f. FunctionValue ''isEnabled'') (isEnabled d)
      else if k = ''keywords'' then map_option StringArray (cmd_keywords d)
      else if k = ''execute'' then Some (FunctionValue ''execute'')
      else None)"

text \<open>
  What the registry holds as \<open>command\<close> after \<open>commands[id]\<close>: a definition, or another
  value found on the way up the prototype chain.
\<close>

datatype command_ref = Definition CommandDefinition | Member member

fun ref_truthy :: "command_ref \<Rightarrow> bool" where
  "ref_truthy (Definition d) = True"
| "ref_truthy (Member m) = member_truthy m"

text \<open>
  The \<open>commands\<close> object: its own properties, and its prototype when that is not
  \<open>Object.prototype\<close> but a definition.
\<close>

record command_object =
  own :: "string \<rightharpoonup> CommandDefinition"
  proto :: "CommandDefinition option"

text \<open>\<open>obj[k]\<close>; \<open>None\<close> is \<open>undefined\<close>.\<close>

definition get_property :: "command_object \<Rightarrow> string \<Rightarrow> command_ref option" where
  "get_property obj k =
     (case own obj k of
        Some d \<Rightarrow> Some (Definition d)
      | None \<Rightarrow>
          (case proto obj of
             None \<Rightarrow> map_option Member (prototype_member k)
           | Some c \<Rightarrow>
               if k = ''__proto__'' then Some (Definition c)
               else (case field_member c k of
                       Some m \<Rightarrow> Some (Member m)
                     | None \<Rightarrow> map_option Member (prototype_member k))))"

text \<open>
  \<open>{ ...obj }\<close> copies the own properties into a fresh object; \<open>{ ...obj, [k]: v }\<close>
  also defines the own property \<open>k\<close>; \<open>const { [k]: _, ...rest } = obj\<close> leaves it
  out; \<open>delete obj[k]\<close> removes an own property.
\<close>

definition spread_copy :: "command_object \<Rightarrow> command_object" where
  "spread_copy obj = \<lparr> own = own obj, proto = None \<rparr>"

definition spread_with :: "command_object \<Rightarrow> string \<Rightarrow> CommandDefinition \<Rightarrow> command_object" where
  "spread_with obj k v = \<lparr> own = (own obj)(k \<mapsto> v), proto = None \<rparr>"

definition rest_without :: "command_object \<Rightarrow> string \<Rightarrow> command_object" where
  "rest_without obj k = \<lparr> own = (own obj)(k := None), proto = None \<rparr>"

definition delete_property :: "command_object \<Rightarrow> string \<Rightarrow> command_object" where
  "delete_property obj k = obj\<lparr> own := (own obj)(k := None) \<rparr>"

text \<open>
  The assignment \<open>obj[k] = v\<close>, in the strict mode of a module. For \<open>k = '__proto__'\<close>
  on an object without such an own property it runs the setter inherited from
  \<open>Object.prototype\<close>, which makes \<open>v\<close> the prototype of \<open>obj\<close>. When \<open>k\<close> is not an
  own property and the object inherits it as a read-only property, which is so for the
  fields of a frozen definition that has become the prototype, the assignment throws a
  \<open>TypeError\<close>. Otherwise it writes the own property.
\<close>

definition inherits_read_only :: "command_object \<Rightarrow> string \<Rightarrow> bool" where
  "inherits_read_only obj k =
     (case proto obj of None \<Rightarrow> False | Some c \<Rightarrow> frozen c \<and> field_member c k \<noteq> None)"

definition assign_property ::
  "command_object \<Rightarrow> string \<Rightarrow> CommandDefinition \<Rightarrow> thrown + command_object" where
  "assign_property obj k v =
     (if k = ''__proto__'' \<and> own obj k = None then Inr (obj\<lparr> proto := Some v \<rparr>)
      else if own obj k = None \<and> inherits_read_only obj k
      then Inl (ErrorObj (''Cannot assign to read only property '' @ [CHR 0x27] @ k @ [CHR 0x27]
                          @ '' of object '' @ [CHR 0x27] @ ''#<Object>'' @ [CHR 0x27]))
      else Inr (obj\<lparr> own := (own obj)(k \<mapsto> v) \<rparr>))"

section \<open>Registry state and registration (command-registry.ts)\<close>

text \<open>
  The store. The \<open>owners\<close> object is only ever built by spreads and computed keys, so
  it is its own properties over \<open>Object.prototype\<close>.
\<close>

record RegistryState =
  commands :: command_object
  owners :: "string \<rightharpoonup> string list"

definition initial_state :: RegistryState where
  "initial_state = \<lparr> commands = \<lparr> own = Map.empty, proto = None \<rparr>, owners = Map.empty \<rparr>"

definition already_registered :: "string \<Rightarrow> thrown" where
  "already_registered i = ErrorObj (''[wrapex] Command \"'' @ i @ ''\" is already registered.'')"

text \<open>
  \<open>register\<close>: throws when \<open>commands[command.id]\<close> is truthy, otherwise stores the
  definition under its id.
\<close>

definition found :: "command_object \<Rightarrow> string \<Rightarrow> bool" where
  "found obj k = (case get_property obj k of None \<Rightarrow> False | Some r \<Rightarrow> ref_truthy r)"

definition register :: "RegistryState \<Rightarrow> CommandDefinition \<Rightarrow> thrown + RegistryState" where
  "register st command =
     (if found (commands st) (cmd_id command)
      then Inl (already_registered (cmd_id command))
      else Inr (st\<lparr> commands := spread_with (commands st) (cmd_id command) command \<rparr>))"

text \<open>
  \<open>registerAll\<close>: the loop fills a copy of the object and throws at the first id
  found in the copy; the store is set only after the loop.
\<close>

fun registerAll_loop :: "command_object \<Rightarrow> CommandDefinition list \<Rightarrow> thrown + command_object" where
  "registerAll_loop newCommands [] = Inr newCommands"
| "registerAll_loop newCommands (cmd # cmds) =
     (if found newCommands (cmd_id cmd)
      then Inl (already_registered (cmd_id cmd))
      else (case assign_property newCommands (cmd_id cmd) cmd of
              Inl e \<Rightarrow> Inl e
            | Inr assigned \<Rightarrow> registerAll_loop assigned cmds))"

definition registerAll :: "RegistryState \<Rightarrow> CommandDefinition list \<Rightarrow> thrown + RegistryState" where
  "registerAll st cmds =
     (case registerAll_loop (spread_copy (commands st)) cmds of
        Inl e \<Rightarrow> Inl e
      | Inr newCommands \<Rightarrow> Inr (st\<lparr> commands := newCommands \<rparr>))"

text \<open>\<open>unregister\<close>: the new state and the boolean returned.\<close>

definition unregister :: "RegistryState \<Rightarrow> string \<Rightarrow> RegistryState \<times> bool" where
  "unregister st i =
     (if \<not> found (commands st) i then (st, False)
      else (st\<lparr> commands := rest_without (commands st) i \<rparr>, True))"

text \<open>The two loops of the owner operations: \<open>delete cleaned[id]\<close> and \<open>cleaned[cmd.id] = cmd\<close>.\<close>

fun delete_ids :: "string list \<Rightarrow> command_object \<Rightarrow> command_object" where
  "delete_ids [] cleaned = cleaned"
| "delete_ids (i # ids) cleaned = delete_ids ids (delete_property cleaned i)"

fun assign_cmds :: "CommandDefinition list \<Rightarrow> command_object \<Rightarrow> thrown + command_object" where
  "assign_cmds [] cleaned = Inr cleaned"
| "assign_cmds (cmd # cmds) cleaned =
     (case assign_property cleaned (cmd_id cmd) cmd of
        Inl e \<Rightarrow> Inl e
      | Inr assigned \<Rightarrow> assign_cmds cmds assigned)"

text \<open>
  \<open>owners[owner] ?? []\<close>: the owner's list, an inherited member of \<open>Object.prototype\<close>
  (it is not nullish, so it is what the loops get), or the empty list.
\<close>

datatype owner_entry = Ids "string list" | Inherited member

definition owner_ids :: "RegistryState \<Rightarrow> string \<Rightarrow> owner_entry" where
  "owner_ids st owner =
     (case owners st owner of
        Some ids \<Rightarrow> Ids ids
      | None \<Rightarrow> (case prototype_member owner of Some m \<Rightarrow> Inherited m | None \<Rightarrow> Ids []))"

text \<open>
  \<open>registerForOwner\<close>. \<open>for (const id of oldIds)\<close> throws a \<open>TypeError\<close> when
  \<open>oldIds\<close> is an inherited member: neither a function nor \<open>Object.prototype\<close> is
  iterable. An assignment of the second loop can throw as well. The store is set after
  the loops.
\<close>

definition registerForOwner ::
  "RegistryState \<Rightarrow> string \<Rightarrow> CommandDefinition list \<Rightarrow> thrown + RegistryState" where
  "registerForOwner st owner cmds =
     (case owner_ids st owner of
        Inherited m \<Rightarrow> Inl (ErrorObj ''oldIds is not iterable'')
      | Ids oldIds \<Rightarrow>
          (case assign_cmds cmds (delete_ids oldIds (spread_copy (commands st))) of
             Inl e \<Rightarrow> Inl e
           | Inr cleaned \<Rightarrow>
               Inr (st\<lparr> commands := cleaned, owners := (owners st)(owner \<mapsto> map cmd_id cmds) \<rparr>)))"

text \<open>
  \<open>unregisterForOwner\<close>: returns at once when \<open>ids.length === 0\<close>, which is so for the
  empty list and for an inherited function of length 0; otherwise the loop, which
  throws on an inherited member.
\<close>

definition unregisterForOwner :: "RegistryState \<Rightarrow> string \<Rightarrow> thrown + RegistryState" where
  "unregisterForOwner st owner =
     (case owner_ids st owner of
        Inherited m \<Rightarrow>
          if member_length m = Some 0 then Inr st else Inl (ErrorObj ''ids is not iterable'')
      | Ids ids \<Rightarrow>
          if length ids = 0 then Inr st
          else Inr (st\<lparr> commands := delete_ids ids (spread_copy (commands st)),
                        owners := (owners st)(owner := None) \<rparr>))"

definition get :: "RegistryState \<Rightarrow> string \<Rightarrow> command_ref option" where
  "get st i = get_property (commands st) i"

text \<open>\<open>makeCommand\<close> of the registry's tests: a minimal definition whose handler succeeds.\<close>

definition makeCommand :: "string \<Rightarrow> CommandDefinition" where
  "makeCommand i =
     \<lparr> cmd_id = i, label = i, category = ''Test'', description = None, schema = None,
       keybinding = None, when_clause = None, requiresConfirmation = None, tags = None,
       metadata = None, isVisible = None, isEnabled = None, cmd_keywords = None,
       cmd_execute = (\<lambda>params ctx. Inr \<lparr> success = True, message = None, data = None \<rparr>),
       frozen = False \<rparr>"

section \<open>The middleware pipeline\<close>

text \<open>
  A middleware is an asynchronous function of the command, the parameters, the context
  and \<open>next\<close>. Its body is modelled as a program over the effects the pipeline can
  observe: it settles (\<open>Done\<close>: a result, or a rejection), it emits an observable event
  of its own (\<open>Emit\<close>: a log line, the question put to the confirm predicate), it
  awaits \<open>next()\<close> and continues with what \<open>next()\<close> settled to (\<open>CallNext\<close>; the
  continuation sees a rejection too, so \<open>try/catch\<close> around \<open>await next()\<close> is a
  continuation that handles \<open>Inl\<close>, and a plain \<open>return next()\<close> is \<open>CallNext Done\<close>),
  or it awaits \<open>command.execute(p, c)\<close> on the command it was given, with arguments
  of its choice (\<open>CallExecute\<close>). A middleware awaits a call where it makes it. The
  command it is given is whatever \<open>commands[id]\<close> gave.
\<close>

datatype mw_event = Log string | ConfirmAsked string

datatype mw_prog =
    Done outcome
  | Emit mw_event mw_prog
  | CallNext "outcome \<Rightarrow> mw_prog"
  | CallExecute jsval CommandContext "outcome \<Rightarrow> mw_prog"

type_synonym CommandMiddleware = "command_ref \<Rightarrow> jsval \<Rightarrow> CommandContext \<Rightarrow> mw_prog"

text \<open>
  What a run records, in order: the middleware at a list position was entered with
  these parameters and this context, it emitted an event, it called \<open>next()\<close>, the
  pipeline invoked the handler (at the end of the chain), a middleware invoked the
  handler itself.
\<close>

datatype event =
    MwEntered nat jsval CommandContext
  | FromMw nat mw_event
  | NextCalled nat
  | HandlerInvoked jsval CommandContext
  | HandlerCalledBy nat jsval CommandContext

text \<open>
  \<open>command.execute(params, context)\<close>: the handler of a definition; on any other value
  \<open>execute\<close> is \<open>undefined\<close> and the call throws a \<open>TypeError\<close>.
\<close>

fun ref_execute :: "command_ref \<Rightarrow> jsval \<Rightarrow> CommandContext \<Rightarrow> outcome" where
  "ref_execute (Definition d) params context = cmd_execute d params context"
| "ref_execute (Member m) params context = Inl (ErrorObj ''command.execute is not a function'')"

text \<open>\<open>runMiddleware\<close> keeps one mutable cursor \<open>index\<close>, shared by every call of \<open>next\<close>.\<close>

record run_state =
  index :: nat
  trace :: "event list"

text \<open>
  Running the body of the middleware at position \<open>who\<close>; \<open>exec\<close> is \<open>command.execute\<close>
  and \<open>nx\<close> the closure \<open>next\<close>. \<open>None\<close> only passes on a \<open>None\<close> of \<open>nx\<close>.
\<close>

primrec run_mw ::
  "mw_prog \<Rightarrow> nat \<Rightarrow> (jsval \<Rightarrow> CommandContext \<Rightarrow> outcome)
     \<Rightarrow> (run_state \<Rightarrow> (outcome \<times> run_state) option) \<Rightarrow> run_state
     \<Rightarrow> (outcome \<times> run_state) option" where
  "run_mw (Done r) who exec nx st = Some (r, st)"
| "run_mw (Emit e p) who exec nx st =
     run_mw p who exec nx (st\<lparr> trace := trace st @ [FromMw who e] \<rparr>)"
| "run_mw (CallNext k) who exec nx st =
     (case nx (st\<lparr> trace := trace st @ [NextCalled who] \<rparr>) of
        None \<Rightarrow> None
      | Some (r, st') \<Rightarrow> run_mw (k r) who exec nx st')"
| "run_mw (CallExecute p c k) who exec nx st =
     run_mw (k (exec p c)) who exec nx (st\<lparr> trace := trace st @ [HandlerCalledBy who p c] \<rparr>)"

definition call_handler ::
  "command_ref \<Rightarrow> jsval \<Rightarrow> CommandContext \<Rightarrow> run_state \<Rightarrow> (outcome \<times> run_state) option" where
  "call_handler command params context st =
     Some (ref_execute command params context,
           st\<lparr> trace := trace st @ [HandlerInvoked params context] \<rparr>)"

text \<open>
  The closure \<open>next\<close> of \<open>runMiddleware\<close>:
  \<^verbatim>\<open>if (index < middleware.length) { const mw = middleware[index++];
      return mw(command, params, context, next); }
  return command.execute(params, context);\<close>
  The first argument after the closed-over values bounds how deeply middleware
  activations may nest; it is there for the recursion only. \<open>None\<close> means the bound was
  too small, and \<open>runMiddleware\<close> starts with the length of the list, which is always
  enough (\<open>runMiddleware_returns\<close> below).
\<close>

primrec next_step ::
  "CommandMiddleware list \<Rightarrow> command_ref \<Rightarrow> jsval \<Rightarrow> CommandContext \<Rightarrow> nat \<Rightarrow> run_state
     \<Rightarrow> (outcome \<times> run_state) option" where
  "next_step mws command params context 0 st =
     (if index st < length mws then None
      else call_handler command params context st)"
| "next_step mws command params context (Suc depth) st =
     (if index st < length mws
      then run_mw ((mws ! index st) command params context) (index st)
             (ref_execute command)
             (next_step mws command params context depth)
             (st\<lparr> index := index st + 1, trace := trace st @ [MwEntered (index st) params context] \<rparr>)
      else call_handler command params context st)"

definition runMiddleware ::
  "CommandMiddleware list \<Rightarrow> command_ref \<Rightarrow> jsval \<Rightarrow> CommandContext
     \<Rightarrow> (outcome \<times> run_state) option" where
  "runMiddleware mws command params context =
     next_step mws command params context (length mws) \<lparr> index = 0, trace = [] \<rparr>"

text \<open>
  Properties of a middleware body. \<open>settles_alone\<close>: it calls neither \<open>next()\<close> nor the
  handler. \<open>at_most_one_next\<close>: it calls \<open>next()\<close> at most once on every path and never
  the handler itself.
\<close>

primrec settles_alone :: "mw_prog \<Rightarrow> bool" where
  "settles_alone (Done r) = True"
| "settles_alone (Emit e p) = settles_alone p"
| "settles_alone (CallNext k) = False"
| "settles_alone (CallExecute p c k) = False"

primrec at_most_one_next :: "mw_prog \<Rightarrow> bool" where
  "at_most_one_next (Done r) = True"
| "at_most_one_next (Emit e p) = at_most_one_next p"
| "at_most_one_next (CallNext k) = (\<forall>r. settles_alone (k r))"
| "at_most_one_next (CallExecute p c k) = False"

text \<open>
  \<open>s.includes(t)\<close>. An outcome reports the error \<open>err\<close>, whose text is \<open>t\<close>, when it is
  a rejection with \<open>err\<close> or a result with \<open>success: false\<close> whose message contains
  \<open>t\<close>. A middleware body relays the error when it never calls the handler itself and,
  each time a \<open>next()\<close> it awaits settles with an outcome that reports the error,
  settles at once with an outcome that reports it.
\<close>

fun str_includes :: "string \<Rightarrow> string \<Rightarrow> bool" where
  "str_includes [] t = (t = [])"
| "str_includes (c # s) t = (take (length t) (c # s) = t \<or> str_includes s t)"




text \<open>
  The composition the specification describes, for comparison with \<open>runMiddleware\<close>:
  the list folded from the right around the handler, the first middleware outermost.
  Here \<open>next\<close> of the middleware at position \<open>j\<close> is the composition of the
  middlewares after it, a fixed function with no cursor: \<open>run_body\<close> runs a body
  given the outcome and the events of that inner composition, and gives the body's
  outcome and the events from its start to its end.
\<close>

primrec run_body ::
  "mw_prog \<Rightarrow> nat \<Rightarrow> (jsval \<Rightarrow> CommandContext \<Rightarrow> outcome) \<Rightarrow> outcome \<times> event list
     \<Rightarrow> outcome \<times> event list" where
  "run_body (Done r) who exec inner = (r, [])"
| "run_body (Emit e p) who exec inner =
     (fst (run_body p who exec inner), FromMw who e # snd (run_body p who exec inner))"
| "run_body (CallNext k) who exec inner =
     (fst (run_body (k (fst inner)) who exec inner),
      NextCalled who # snd inner @ snd (run_body (k (fst inner)) who exec inner))"
| "run_body (CallExecute p c k) who exec inner =
     (fst (run_body (k (exec p c)) who exec inner),
      HandlerCalledBy who p c # snd (run_body (k (exec p c)) who exec inner))"

fun right_fold ::
  "CommandMiddleware list \<Rightarrow> nat \<Rightarrow> command_ref \<Rightarrow> jsval \<Rightarrow> CommandContext
     \<Rightarrow> outcome \<times> event list" where
  "right_fold [] j command params context =
     (ref_execute command params context, [HandlerInvoked params context])"
| "right_fold (mw # rest) j command params context =
     (fst (run_body (mw command params context) j (ref_execute command)
             (right_fold rest (Suc j) command params context)),
      MwEntered j params context
        # snd (run_body (mw command params context) j (ref_execute command)
                 (right_fold rest (Suc j) command params context)))"

text \<open>
  Properties of a trace: all its events were emitted by the middleware at one
  position; the handler was invoked, by the pipeline or by a middleware; the positions
  of the middlewares entered, in order; every entry of a middleware and every
  invocation of the handler by the pipeline had these arguments.
\<close>

definition own_events :: "nat \<Rightarrow> event list \<Rightarrow> bool" where
  "own_events who evs = list_all (\<lambda>e. case e of FromMw j x \<Rightarrow> j = who | _ \<Rightarrow> False) evs"

definition handler_seen :: "event list \<Rightarrow> bool" where
  "handler_seen evs =
     list_ex (\<lambda>e. case e of HandlerInvoked p c \<Rightarrow> True | HandlerCalledBy j p c \<Rightarrow> True | _ \<Rightarrow> False) evs"

fun entered :: "event list \<Rightarrow> nat list" where
  "entered [] = []"
| "entered (MwEntered j p c # evs) = j # entered evs"
| "entered (e # evs) = entered evs"

definition chain_args :: "jsval \<Rightarrow> CommandContext \<Rightarrow> event list \<Rightarrow> bool" where
  "chain_args params ctx evs =
     list_all (\<lambda>e. case e of
                  MwEntered j p c \<Rightarrow> p = params \<and> c = ctx
                | HandlerInvoked p c \<Rightarrow> p = params \<and> c = ctx
                | _ \<Rightarrow> True) evs"

subsection \<open>The stock middlewares (middleware-pipeline.ts, validation-middleware.ts)\<close>

text \<open>
  What the stock middlewares read of the command they are given: \<open>command.schema\<close>,
  \<open>command.id\<close> as a template literal prints it, and the truthiness of
  \<open>command.requiresConfirmation\<close>. On a value that is not a definition these are
  \<open>undefined\<close>, but for the policy metadata object, which has a \<open>requiresConfirmation\<close>.
\<close>

fun ref_schema :: "command_ref \<Rightarrow> zschema option" where
  "ref_schema (Definition d) = schema d"
| "ref_schema (Member m) = None"

fun ref_id :: "command_ref \<Rightarrow> string" where
  "ref_id (Definition d) = cmd_id d"
| "ref_id (Member m) = ''undefined''"

fun ref_requiresConfirmation :: "command_ref \<Rightarrow> bool" where
  "ref_requiresConfirmation (Definition d) = (requiresConfirmation d = Some True)"
| "ref_requiresConfirmation (Member (MetadataValue m)) = (meta_requiresConfirmation m = Some True)"
| "ref_requiresConfirmation (Member m) = False"

definition validationMiddleware :: CommandMiddleware where
  "validationMiddleware command params context =
     (case ref_schema command of
        None \<Rightarrow> CallNext Done
      | Some s \<Rightarrow>
          (case schema_parse s params of
             Inl e \<Rightarrow> Done (Inl e)
           | Inr parsed \<Rightarrow> CallNext Done))"

text \<open>The logged payloads (parameters, source, duration) are left out of the log lines.\<close>

definition loggingMiddleware :: CommandMiddleware where
  "loggingMiddleware command params context =
     Emit (Log (''[wrapex] Executing: '' @ ref_id command))
       (CallNext (\<lambda>r. case r of
            Inl e \<Rightarrow> Done (Inl e)
          | Inr result \<Rightarrow> Emit (Log (''[wrapex] Completed: '' @ ref_id command)) (Done (Inr result))))"

definition errorBoundaryMiddleware :: CommandMiddleware where
  "errorBoundaryMiddleware command params context =
     CallNext (\<lambda>r. case r of
         Inr result \<Rightarrow> Done (Inr result)
       | Inl err \<Rightarrow>
           Emit (Log (''[wrapex] Error in \"'' @ ref_id command @ ''\":''))
             (Done (Inr \<lparr> success = False, message = Some (error_text err), data = None \<rparr>)))"

definition cancelled :: CommandResult where
  "cancelled = \<lparr> success = False, message = Some ''Cancelled by user.'', data = None \<rparr>"

text \<open>
  \<open>createConfirmationMiddleware(confirmFn)\<close>. The confirm predicate is asynchronous:
  it resolves to a boolean or rejects. Asking it is recorded as \<open>ConfirmAsked\<close>.
\<close>

definition createConfirmationMiddleware ::
  "(command_ref \<Rightarrow> thrown + bool) \<Rightarrow> CommandMiddleware" where
  "createConfirmationMiddleware confirmFn command params context =
     (if ref_requiresConfirmation command
      then Emit (ConfirmAsked (ref_id command))
             (case confirmFn command of
                Inl e \<Rightarrow> Done (Inl e)
              | Inr confirmed \<Rightarrow>
                  if \<not> confirmed then Done (Inr cancelled) else CallNext Done)
      else CallNext Done)"

definition createDefaultMiddleware :: "CommandMiddleware list" where
  "createDefaultMiddleware = [errorBoundaryMiddleware, loggingMiddleware, validationMiddleware]"

record ValidationConfig =
  catchErrors :: "bool option"

fun join :: "string \<Rightarrow> string list \<Rightarrow> string" where
  "join sep [] = []"
| "join sep [x] = x"
| "join sep (x # y # ys) = x @ sep @ join sep (y # ys)"

definition issues_text :: "issue list \<Rightarrow> string" where
  "issues_text iss = join ''; '' (map (\<lambda>i. join ''.'' (path i) @ '': '' @ issue_message i) iss)"

definition createValidationMiddleware :: "ValidationConfig \<Rightarrow> CommandMiddleware" where
  "createValidationMiddleware config command params context =
     (case ref_schema command of
        None \<Rightarrow> CallNext Done
      | Some s \<Rightarrow>
          if catchErrors config = Some True
          then (case s params of
                  Inl zerr \<Rightarrow>
                    Done (Inr \<lparr> success = False,
                                message = Some (''Validation failed for \"'' @ ref_id command @ ''\": ''
                                                @ issues_text (issues zerr)),
                                data = None \<rparr>)
                | Inr parsed \<Rightarrow> CallNext Done)
          else (case schema_parse s params of
                  Inl e \<Rightarrow> Done (Inl e)
                | Inr parsed \<Rightarrow> CallNext Done))"

section \<open>Execution (command-registry.ts)\<close>

record RegistryConfig =
  middleware :: "CommandMiddleware list option"
  evaluateWhen :: "(string \<Rightarrow> thrown + bool) option"
  contextProvider :: "(unit \<Rightarrow> thrown + CommandContext) option"

text \<open>The defaults of \<open>createRegistry\<close>: no middleware, a permissive evaluator, an empty context.\<close>

definition the_middleware :: "RegistryConfig \<Rightarrow> CommandMiddleware list" where
  "the_middleware config = (case middleware config of Some mws \<Rightarrow> mws | None \<Rightarrow> [])"

definition the_evaluateWhen :: "RegistryConfig \<Rightarrow> string \<Rightarrow> thrown + bool" where
  "the_evaluateWhen config =
     (case evaluateWhen config of Some f \<Rightarrow> f | None \<Rightarrow> (\<lambda>clause. Inr True))"

definition the_contextProvider :: "RegistryConfig \<Rightarrow> unit \<Rightarrow> thrown + CommandContext" where
  "the_contextProvider config =
     (case contextProvider config of Some f \<Rightarrow> f | None \<Rightarrow> (\<lambda>u. Inr Map.empty))"

definition spread_opt :: "CommandContext option \<Rightarrow> CommandContext" where
  "spread_opt overrides = (case overrides of None \<Rightarrow> Map.empty | Some m \<Rightarrow> m)"

definition ctx_get :: "CommandContext \<Rightarrow> string \<Rightarrow> jsval" where
  "ctx_get m k = (case m k of Some v \<Rightarrow> v | None \<Rightarrow> JUndefined)"

text \<open>
  \<open>buildContext(overrides)\<close>: the defaults, then the provider's output, then the
  overrides; then \<open>source\<close> and \<open>invocation.surface\<close> are synchronised. A provider that
  throws makes \<open>buildContext\<close> throw.
\<close>

definition synchronise :: "CommandContext \<Rightarrow> CommandContext" where
  "synchronise merged =
     (if truthy (ctx_get merged ''invocation'') \<and> ctx_get merged ''source'' = JStr ''unknown''
      then merged(''source'' \<mapsto> surface_of (ctx_get merged ''invocation''))
      else if ctx_get merged ''source'' \<noteq> JStr ''unknown'' \<and> \<not> truthy (ctx_get merged ''invocation'')
      then merged(''invocation'' \<mapsto> JObj [(''surface'', ctx_get merged ''source'')])
      else merged)"

definition buildContext :: "RegistryConfig \<Rightarrow> CommandContext option \<Rightarrow> thrown + CommandContext" where
  "buildContext config overrides =
     (case the_contextProvider config () of
        Inl e \<Rightarrow> Inl e
      | Inr provided \<Rightarrow>
          Inr (synchronise (([''store'' \<mapsto> JUndefined, ''source'' \<mapsto> JStr ''unknown'']
                               ++ provided) ++ spread_opt overrides)))"

text \<open>The overrides \<open>execute\<close> hands to \<open>buildContext\<close>: \<open>{ source: 'unknown', ...contextOverrides }\<close>.\<close>

definition execute_overrides :: "CommandContext option \<Rightarrow> CommandContext" where
  "execute_overrides contextOverrides = [''source'' \<mapsto> JStr ''unknown''] ++ spread_opt contextOverrides"



definition failure :: "string \<Rightarrow> CommandResult" where
  "failure m = \<lparr> success = False, message = Some m, data = None \<rparr>"

text \<open>
  The when-clause guard of \<open>execute\<close>, \<open>command.when && !evaluateWhen(command.when)\<close>:
  \<open>Inl\<close> when the evaluator throws, otherwise the clause that blocks the call, if one
  does. An empty string is falsy, so only a non-empty clause is evaluated; a value that
  is not a definition has no \<open>when\<close>.
\<close>

fun when_guard :: "RegistryConfig \<Rightarrow> command_ref \<Rightarrow> thrown + string option" where
  "when_guard config (Definition d) =
     (case when_clause d of
        None \<Rightarrow> Inr None
      | Some w \<Rightarrow>
          if w = [] then Inr None
          else (case the_evaluateWhen config w of
                  Inl e \<Rightarrow> Inl e
                | Inr ok \<Rightarrow> if ok then Inr None else Inr (Some w)))"
| "when_guard config (Member m) = Inr None"

text \<open>
  The guard \<open>command.isEnabled && !command.isEnabled(context)\<close>: \<open>Inl\<close> when the
  predicate throws, otherwise whether the command is disabled.
\<close>

fun enabled_guard :: "command_ref \<Rightarrow> CommandContext \<Rightarrow> thrown + bool" where
  "enabled_guard (Definition d) context =
     (case isEnabled d of
        None \<Rightarrow> Inr False
      | Some enabled \<Rightarrow> (case enabled context of Inl e \<Rightarrow> Inl e | Inr b \<Rightarrow> Inr (\<not> b)))"
| "enabled_guard (Member m) context = Inr False"

text \<open>
  \<open>execute(id, params, contextOverrides)\<close>: what the returned promise settles to, with
  the trace of the run. The guards come first, outside the \<open>try\<close>: \<open>!command\<close>, the
  when-clause, the context, \<open>isEnabled\<close>; what one of their callbacks throws rejects the
  promise. Then the chain inside \<open>try/catch\<close>. An omitted \<open>params\<close> is \<open>JUndefined\<close>.
\<close>

definition unknown_command :: "string \<Rightarrow> (outcome \<times> event list) option" where
  "unknown_command i = Some (Inr (failure (''Unknown command: \"'' @ i @ ''\"'')), [])"

definition execute ::
  "RegistryConfig \<Rightarrow> RegistryState \<Rightarrow> string \<Rightarrow> jsval \<Rightarrow> CommandContext option
     \<Rightarrow> (outcome \<times> event list) option" where
  "execute config st i params contextOverrides =
     (case get_property (commands st) i of
        None \<Rightarrow> unknown_command i
      | Some command \<Rightarrow>
          if \<not> ref_truthy command then unknown_command i
          else
            (case when_guard config command of
               Inl e \<Rightarrow> Some (Inl e, [])
             | Inr (Some w) \<Rightarrow>
                 Some (Inr (failure (''Command \"'' @ i @ ''\" is not available in the current context (when: \"''
                                     @ w @ ''\").'')), [])
             | Inr None \<Rightarrow>
                 (case buildContext config (Some (execute_overrides contextOverrides)) of
                    Inl e \<Rightarrow> Some (Inl e, [])
                  | Inr context \<Rightarrow>
                      (case enabled_guard command context of
                         Inl e \<Rightarrow> Some (Inl e, [])
                       | Inr True \<Rightarrow>
                           Some (Inr (failure (''Command \"'' @ i @ ''\" is currently disabled.'')), [])
                       | Inr False \<Rightarrow>
                           (case runMiddleware (the_middleware config) command
                                   (nullish_or params (JObj [])) context of
                              None \<Rightarrow> None
                            | Some (Inl err, rs) \<Rightarrow>
                                Some (Inr (failure (''Command \"'' @ i @ ''\" failed: '' @ error_text err)),
                                      trace rs)
                            | Some (Inr result, rs) \<Rightarrow> Some (Inr result, trace rs))))))"

text \<open>
  \<open>isAvailable\<close>: false when \<open>commands[id]\<close> is falsy, true without a when-clause,
  otherwise what the evaluator returns; it throws when the evaluator throws.
\<close>

definition isAvailable :: "RegistryConfig \<Rightarrow> RegistryState \<Rightarrow> string \<Rightarrow> thrown + bool" where
  "isAvailable config st i =
     (case get_property (commands st) i of
        None \<Rightarrow> Inr False
      | Some (Member m) \<Rightarrow> Inr (member_truthy m)
      | Some (Definition cmd) \<Rightarrow>
          (case when_clause cmd of
             None \<Rightarrow> Inr True
           | Some w \<Rightarrow> if w = [] then Inr True else the_evaluateWhen config w))"

section \<open>The sample when-clause evaluator (rules/when-clause-conventions.md)\<close>

text \<open>
  The evaluator the conventions give for \<open>createRegistry({ evaluateWhen })\<close>. Its
  \<open>context\<close> object, built from the application's state, is the parameter \<open>env\<close>: the
  own keys of a plain object. Strings are lists of code units below 256; \<open>trim\<close>
  removes the white space among them. A returned value stands for its truthiness,
  which is all the registry tests.
\<close>

definition is_ws :: "char \<Rightarrow> bool" where
  "is_ws c = (of_char c \<in> {9, 10, 11, 12, 13, 32, 160 :: nat})"

definition trim :: "string \<Rightarrow> string" where
  "trim s = rev (dropWhile is_ws (rev (dropWhile is_ws s)))"

text \<open>\<open>s.split(sep)\<close> and \<open>s.includes(sep)\<close> for a separator of two characters \<open>a b\<close>.\<close>

fun split2 :: "char \<Rightarrow> char \<Rightarrow> string \<Rightarrow> string \<Rightarrow> string list" where
  "split2 a b acc (x # y # rest) =
     (if x = a \<and> y = b then acc # split2 a b [] rest else split2 a b (acc @ [x]) (y # rest))"
| "split2 a b acc [x] = [acc @ [x]]"
| "split2 a b acc [] = [acc]"

fun includes2 :: "char \<Rightarrow> char \<Rightarrow> string \<Rightarrow> bool" where
  "includes2 a b (x # y # rest) = ((x = a \<and> y = b) \<or> includes2 a b (y # rest))"
| "includes2 a b [x] = False"
| "includes2 a b [] = False"

text \<open>
  The truthiness of \<open>context[k]\<close> (and so of \<open>context[k] ?? false\<close>): the own boolean,
  true for a member inherited from \<open>Object.prototype\<close>, false for a key that is
  nowhere.
\<close>

definition env_lookup :: "(string \<rightharpoonup> bool) \<Rightarrow> string \<Rightarrow> bool" where
  "env_lookup env k =
     (case env k of
        Some v \<Rightarrow> v
      | None \<Rightarrow> (case prototype_member k of Some m \<Rightarrow> True | None \<Rightarrow> False))"

definition startsWith_bang :: "string \<Rightarrow> bool" where
  "startsWith_bang clause = (case clause of [] \<Rightarrow> False | c # rest \<Rightarrow> c = CHR ''!'')"

text \<open>
  An identifier-like key: not empty, without white space, \<open>!\<close>, \<open>&\<close> and \<open>|\<close>, and
  not the name of a member of \<open>Object.prototype\<close>.
\<close>

definition key_char :: "char \<Rightarrow> bool" where
  "key_char c = (\<not> is_ws c \<and> c \<noteq> CHR ''!'' \<and> c \<noteq> CHR ''&'' \<and> c \<noteq> CHR ''|'')"

definition key_like :: "string \<Rightarrow> bool" where
  "key_like k = (k \<noteq> [] \<and> list_all key_char k \<and> prototype_member k = None)"

function sample_evaluateWhen :: "(string \<rightharpoonup> bool) \<Rightarrow> string \<Rightarrow> bool" where
  "sample_evaluateWhen env clause =
     (if startsWith_bang clause then \<not> env_lookup env (tl clause)
      else if includes2 CHR ''&'' CHR ''&'' clause
      then list_all (\<lambda>part. sample_evaluateWhen env (trim part)) (split2 CHR ''&'' CHR ''&'' [] clause)
      else if includes2 CHR ''|'' CHR ''|'' clause
      then list_ex (\<lambda>part. sample_evaluateWhen env (trim part)) (split2 CHR ''|'' CHR ''|'' [] clause)
      else env_lookup env clause)"
  by pat_completeness auto

section \<open>Concrete inputs\<close>

text \<open>Registries, commands and middlewares of the repository's tests, used to evaluate the model.\<close>

definition empty_context :: CommandContext where
  "empty_context = Map.empty"

text \<open>
  Middlewares of the registry's tests: \<open>mw1\<close>/\<open>mw2\<close> of "runs middleware in order"
  (\<open>observer\<close>, with its two log lines) and \<open>blocker\<close> of "middleware can
  short-circuit". \<open>retry_once\<close> calls \<open>next()\<close> a second time when the first call
  did not succeed; \<open>fallback\<close> answers a rejection of \<open>next()\<close> with a result of its
  own; \<open>cached\<close> answers without calling \<open>next()\<close>; \<open>direct_call\<close> returns
  \<open>command.execute(params, context)\<close> without calling \<open>next()\<close>.
\<close>

definition observer :: "string \<Rightarrow> string \<Rightarrow> CommandMiddleware" where
  "observer before after command params ctx =
     Emit (Log before)
       (CallNext (\<lambda>r. case r of
            Inl e \<Rightarrow> Done (Inl e)
          | Inr result \<Rightarrow> Emit (Log after) (Done (Inr result))))"

definition blocker :: CommandMiddleware where
  "blocker command params ctx = Done (Inr \<lparr> success = False, message = Some ''blocked'', data = None \<rparr>)"

definition retry_once :: CommandMiddleware where
  "retry_once command params ctx =
     CallNext (\<lambda>r. case r of
         Inl e \<Rightarrow> CallNext Done
       | Inr result \<Rightarrow> if success result then Done (Inr result) else CallNext Done)"


definition cached :: CommandMiddleware where
  "cached command params ctx =
     Done (Inr \<lparr> success = True, message = Some ''served from cache'', data = None \<rparr>)"

definition direct_call :: CommandMiddleware where
  "direct_call command params ctx = CallExecute params ctx Done"







text \<open>
  A \<open>ZodError\<close> of one \<open>invalid_type\<close> issue, with the message Zod gives it (the JSON
  text of the issue list); a schema in the manner of
  \<open>z.object({ count: z.number().default(1) })\<close>; a command with it whose handler
  returns its parameters as data (the handler of the test "execute calls the handler
  and returns result"); a confirm predicate that declines and one that accepts; two
  commands that set the confirmation flag through the policy metadata; an environment
  for the sample evaluator.
\<close>

definition zod_type :: "jsval \<Rightarrow> string" where
  "zod_type v =
     (case v of
        JUndefined \<Rightarrow> ''undefined'' | JNull \<Rightarrow> ''null'' | JBool b \<Rightarrow> ''boolean''
      | JNum n \<Rightarrow> ''number'' | JStr s \<Rightarrow> ''string'' | JArr xs \<Rightarrow> ''array''
      | JObj kvs \<Rightarrow> ''object'')"

definition json_path :: "string list \<Rightarrow> string" where
  "json_path ps =
     (if ps = [] then ''[]''
      else ''['' @ [CHR 0x0A]
           @ join ('','' @ [CHR 0x0A]) (map (\<lambda>p. ''      \"'' @ p @ ''\"'') ps)
           @ [CHR 0x0A] @ ''    ]'')"

definition invalid_type :: "string list \<Rightarrow> string \<Rightarrow> jsval \<Rightarrow> ZodError" where
  "invalid_type ps expected v =
     (let text = (if v = JUndefined then ''Required''
                  else ''Expected '' @ expected @ '', received '' @ zod_type v)
      in \<lparr> zod_message =
             ''['' @ [CHR 0x0A] @ ''  {'' @ [CHR 0x0A]
             @ ''    \"code\": \"invalid_type\",'' @ [CHR 0x0A]
             @ ''    \"expected\": \"'' @ expected @ ''\",'' @ [CHR 0x0A]
             @ ''    \"received\": \"'' @ zod_type v @ ''\",'' @ [CHR 0x0A]
             @ ''    \"path\": '' @ json_path ps @ '','' @ [CHR 0x0A]
             @ ''    \"message\": \"'' @ text @ ''\"'' @ [CHR 0x0A]
             @ ''  }'' @ [CHR 0x0A] @ '']'',
           issues = [\<lparr> path = ps, issue_message = text \<rparr>] \<rparr>)"

definition count_schema :: zschema where
  "count_schema v =
     (case v of
        JObj kvs \<Rightarrow>
          (case map_of kvs ''count'' of
             None \<Rightarrow> Inr (JObj [(''count'', JNum 1)])
           | Some JUndefined \<Rightarrow> Inr (JObj [(''count'', JNum 1)])
           | Some (JNum n) \<Rightarrow> Inr (JObj [(''count'', JNum n)])
           | Some other \<Rightarrow> Inl (invalid_type [''count''] ''number'' other))
      | other \<Rightarrow> Inl (invalid_type [] ''object'' other))"

definition echo_command :: CommandDefinition where
  "echo_command =
     (makeCommand ''test.exec'')
       \<lparr> schema := Some count_schema,
         cmd_execute := (\<lambda>params ctx. Inr \<lparr> success = True, message = None, data = Some params \<rparr>) \<rparr>"

definition accept :: "command_ref \<Rightarrow> thrown + bool" where
  "accept command = Inr True"

definition decline :: "command_ref \<Rightarrow> thrown + bool" where
  "decline command = Inr False"

definition policy_confirm_command :: CommandDefinition where
  "policy_confirm_command =
     (makeCommand ''test.confirm'')
       \<lparr> metadata := Some \<lparr> readOnly = None, idempotent = None, riskLevel = Some RiskHigh,
                            meta_requiresConfirmation = Some True \<rparr> \<rparr>"

definition policy_waived_command :: CommandDefinition where
  "policy_waived_command =
     (makeCommand ''test.waived'')
       \<lparr> requiresConfirmation := Some True,
         metadata := Some \<lparr> readOnly = None, idempotent = None, riskLevel = None,
                            meta_requiresConfirmation = Some False \<rparr> \<rparr>"

definition flags_env :: "string \<rightharpoonup> bool" where
  "flags_env = [''a'' \<mapsto> True, ''b'' \<mapsto> True]"

text \<open>
  Registries: the default configuration, one with the stock middleware stack
  (\<open>createDefaultMiddleware\<close>), one whose only middleware answers from a cache, one
  whose middleware falls back on a rejection, and an evaluator in the manner of the
  test "blocks execution when clause fails"; a registry holding one command; commands
  whose handler throws, whose when-clause fails, which is disabled, and whose
  \<open>isEnabled\<close> throws.
\<close>

definition default_config :: RegistryConfig where
  "default_config = \<lparr> middleware = None, evaluateWhen = None, contextProvider = None \<rparr>"

definition stock_config :: RegistryConfig where
  "stock_config =
     \<lparr> middleware = Some createDefaultMiddleware, evaluateWhen = None, contextProvider = None \<rparr>"

definition cached_config :: RegistryConfig where
  "cached_config = \<lparr> middleware = Some [cached], evaluateWhen = None, contextProvider = None \<rparr>"


definition gating_config :: RegistryConfig where
  "gating_config =
     \<lparr> middleware = None, evaluateWhen = Some (\<lambda>clause. Inr (clause = ''true'')),
       contextProvider = None \<rparr>"

definition registry_with :: "CommandDefinition \<Rightarrow> RegistryState" where
  "registry_with command =
     \<lparr> commands = \<lparr> own = [cmd_id command \<mapsto> command], proto = None \<rparr>, owners = Map.empty \<rparr>"


definition gated_command :: CommandDefinition where
  "gated_command = (makeCommand ''test.gated'')\<lparr> when_clause := Some ''false'' \<rparr>"

definition disabled_command :: CommandDefinition where
  "disabled_command = (makeCommand ''test.off'')\<lparr> isEnabled := Some (\<lambda>ctx. Inr False) \<rparr>"


section \<open>The sample evaluator terminates\<close>

lemma split2_length_le:
  "p \<in> set (split2 a b acc s) \<Longrightarrow> length p \<le> length acc + length s"
  by (induction a b acc s rule: split2.induct) (auto split: if_splits)

lemma split2_length_less:
  "includes2 a b s \<Longrightarrow> p \<in> set (split2 a b acc s) \<Longrightarrow> length p < length acc + length s"
proof (induction a b acc s rule: split2.induct)
  case (1 a b acc x y rest)
  show ?case
  proof (cases "x = a \<and> y = b")
    case True
    with "1.prems" have "p = acc \<or> p \<in> set (split2 a b [] rest)" by auto
    then show ?thesis
    proof
      assume "p = acc" then show ?thesis by simp
    next
      assume "p \<in> set (split2 a b [] rest)"
      from split2_length_le [OF this] show ?thesis by simp
    qed
  next
    case False
    with "1.prems" have inc: "includes2 a b (y # rest)"
      and mem: "p \<in> set (split2 a b (acc @ [x]) (y # rest))" by auto
    from "1.IH"(2) [OF False inc mem] show ?thesis by simp
  qed
qed simp_all

lemma length_trim_le: "length (trim s) \<le> length s"
proof -
  have "length (trim s) \<le> length (dropWhile is_ws s)"
    unfolding trim_def by (metis length_dropWhile_le length_rev)
  also have "\<dots> \<le> length s" by (rule length_dropWhile_le)
  finally show ?thesis .
qed

termination sample_evaluateWhen
proof (relation "measure (\<lambda>(env, clause). length clause)")
  show "wf (measure (\<lambda>(env, clause). length clause))" by simp
next
  fix env :: "string \<rightharpoonup> bool" and clause part :: string
  assume "includes2 CHR ''&'' CHR ''&'' clause"
    and "part \<in> set (split2 CHR ''&'' CHR ''&'' [] clause)"
  from split2_length_less [OF this] length_trim_le [of part]
  show "((env, trim part), (env, clause)) \<in> measure (\<lambda>(env, clause). length clause)" by simp
next
  fix env :: "string \<rightharpoonup> bool" and clause part :: string
  assume "includes2 CHR ''|'' CHR ''|'' clause"
    and "part \<in> set (split2 CHR ''|'' CHR ''|'' [] clause)"
  from split2_length_less [OF this] length_trim_le [of part]
  show "((env, trim part), (env, clause)) \<in> measure (\<lambda>(env, clause). length clause)" by simp
qed

declare sample_evaluateWhen.simps [simp del]

section \<open>Registration: properties\<close>

lemma delete_ids_own:
  "own (delete_ids ids obj) k = (if k \<in> set ids then None else own obj k)"
  by (induction ids arbitrary: obj) (auto simp: delete_property_def)

lemma delete_ids_proto: "proto (delete_ids ids obj) = proto obj"
  by (induction ids arbitrary: obj) (auto simp: delete_property_def)

lemma assign_property_plain:
  "k \<noteq> ''__proto__'' \<Longrightarrow> proto obj = None
     \<Longrightarrow> assign_property obj k v = Inr (obj\<lparr> own := (own obj)(k \<mapsto> v) \<rparr>)"
  by (simp add: assign_property_def inherits_read_only_def)

lemma assign_cmds_plain:
  "list_all (\<lambda>d. cmd_id d \<noteq> ''__proto__'') cmds \<Longrightarrow> proto obj = None \<Longrightarrow>
     \<exists>obj'. assign_cmds cmds obj = Inr obj' \<and> proto obj' = None
        \<and> (\<forall>k. k \<notin> cmd_id ` set cmds \<longrightarrow> own obj' k = own obj k)
        \<and> (\<forall>k \<in> cmd_id ` set cmds. \<exists>d \<in> set cmds. cmd_id d = k \<and> own obj' k = Some d)
        \<and> (distinct (map cmd_id cmds) \<longrightarrow> (\<forall>d \<in> set cmds. own obj' (cmd_id d) = Some d))"
proof (induction cmds arbitrary: obj)
  case Nil
  then show ?case by simp
next
  case (Cons c cs)
  let ?obj1 = "obj\<lparr> own := (own obj)(cmd_id c \<mapsto> c) \<rparr>"
  from Cons.prems have ok: "list_all (\<lambda>d. cmd_id d \<noteq> ''__proto__'') cs"
    and c: "cmd_id c \<noteq> ''__proto__''" by simp_all
  from assign_property_plain [OF c Cons.prems(2)]
  have step: "assign_cmds (c # cs) obj = assign_cmds cs ?obj1" by simp
  have "proto ?obj1 = None" using Cons.prems(2) by simp
  from Cons.IH [OF ok this] obtain obj' where
    run: "assign_cmds cs ?obj1 = Inr obj'" and p: "proto obj' = None"
    and other: "\<forall>k. k \<notin> cmd_id ` set cs \<longrightarrow> own obj' k = own ?obj1 k"
    and inn: "\<forall>k \<in> cmd_id ` set cs. \<exists>d \<in> set cs. cmd_id d = k \<and> own obj' k = Some d"
    and dist: "distinct (map cmd_id cs) \<longrightarrow> (\<forall>d \<in> set cs. own obj' (cmd_id d) = Some d)"
    by blast
  have a: "\<forall>k. k \<notin> cmd_id ` set (c # cs) \<longrightarrow> own obj' k = own obj k"
    using other by simp
  have b: "\<forall>k \<in> cmd_id ` set (c # cs). \<exists>d \<in> set (c # cs). cmd_id d = k \<and> own obj' k = Some d"
  proof
    fix k assume k: "k \<in> cmd_id ` set (c # cs)"
    show "\<exists>d \<in> set (c # cs). cmd_id d = k \<and> own obj' k = Some d"
    proof (cases "k \<in> cmd_id ` set cs")
      case True
      with inn obtain d where "d \<in> set cs" "cmd_id d = k" "own obj' k = Some d" by blast
      then show ?thesis by (intro bexI [of _ d]) simp_all
    next
      case False
      with k have "k = cmd_id c" by auto
      with False other show ?thesis by (intro bexI [of _ c]) simp_all
    qed
  qed
  have d: "distinct (map cmd_id (c # cs)) \<longrightarrow> (\<forall>d \<in> set (c # cs). own obj' (cmd_id d) = Some d)"
  proof (intro impI ballI)
    fix d assume di: "distinct (map cmd_id (c # cs))" and d: "d \<in> set (c # cs)"
    show "own obj' (cmd_id d) = Some d"
    proof (cases "d = c")
      case True
      with di have "cmd_id c \<notin> cmd_id ` set cs" by auto
      with other True show ?thesis by simp
    next
      case False
      with di d dist show ?thesis by simp
    qed
  qed
  from step run p a b d show ?case by simp
qed

lemma get_own: "own obj k = Some d \<Longrightarrow> get_property obj k = Some (Definition d)"
  by (simp add: get_property_def)

text \<open>
  Claim C3 at a failing input. On a registry that holds nothing, registering a
  definition whose id is \<open>toString\<close> or \<open>constructor\<close> throws the duplicate-id
  error: \<open>commands[id]\<close> finds the function of that name on \<open>Object.prototype\<close>,
  which is truthy. For the same reason \<open>get\<close> of such an id returns that function, not
  \<open>undefined\<close>, and \<open>unregister\<close> of it returns \<open>true\<close>.
\<close>

theorem register_inherited_id_rejected:
  "defineCommand (makeCommand ''toString'') = Inr ((makeCommand ''toString'')\<lparr> frozen := True \<rparr>)
   \<and> own (commands initial_state) ''toString'' = None
   \<and> register initial_state (makeCommand ''toString'') = Inl (already_registered ''toString'')
   \<and> get initial_state ''toString'' = Some (Member (PrototypeFunction ''toString''))
   \<and> register initial_state (makeCommand ''constructor'') = Inl (already_registered ''constructor'')
   \<and> unregister initial_state ''toString'' = (initial_state, True)"
  by (simp add: register_def found_def get_def get_property_def initial_state_def prototype_member_def
      object_prototype_functions_def unregister_def rest_without_def makeCommand_def defineCommand_def)

text \<open>
  What holds of \<open>register\<close> and \<open>get\<close>. When the id of \<open>d\<close> is not an own key of the
  \<open>commands\<close> object, the object has no prototype but \<open>Object.prototype\<close> and the id
  names no member of \<open>Object.prototype\<close>: \<open>register\<close> succeeds, \<open>get\<close> of the id then
  returns \<open>d\<close>, every other id reads as before, and registering any definition with
  that id again throws the duplicate-id error. When the id is an own key, \<open>register\<close>
  throws the duplicate-id error before it sets the store, so the state is still the one
  in which \<open>get\<close> returns the definition registered before.
\<close>

theorem register_get_roundtrip:
  "(own (commands st) (cmd_id d) = None \<and> proto (commands st) = None
      \<and> prototype_member (cmd_id d) = None \<longrightarrow>
      (\<exists>st'. register st d = Inr st' \<and> get st' (cmd_id d) = Some (Definition d)
          \<and> (\<forall>k. k \<noteq> cmd_id d \<longrightarrow> get st' k = get st k)
          \<and> owners st' = owners st
          \<and> (\<forall>d2. cmd_id d2 = cmd_id d \<longrightarrow>
                register st' d2 = Inl (already_registered (cmd_id d)))))
   \<and> (\<forall>d0. own (commands st) (cmd_id d) = Some d0 \<longrightarrow>
        register st d = Inl (already_registered (cmd_id d))
        \<and> get st (cmd_id d) = Some (Definition d0))"
  by (auto simp: register_def get_def found_def get_property_def spread_with_def
      split: option.splits)

theorem register_get_roundtrip_witness:
  "own (commands initial_state) (cmd_id (makeCommand ''test.a'')) = None
   \<and> proto (commands initial_state) = None
   \<and> prototype_member (cmd_id (makeCommand ''test.a'')) = None
   \<and> register initial_state (makeCommand ''test.a'') = Inr (registry_with (makeCommand ''test.a''))
   \<and> get (registry_with (makeCommand ''test.a'')) ''test.a'' = Some (Definition (makeCommand ''test.a''))
   \<and> own (commands (registry_with (makeCommand ''test.a'')))
        (cmd_id ((makeCommand ''test.a'')\<lparr> label := ''Other'' \<rparr>)) = Some (makeCommand ''test.a'')
   \<and> register (registry_with (makeCommand ''test.a'')) ((makeCommand ''test.a'')\<lparr> label := ''Other'' \<rparr>)
     = Inl (already_registered ''test.a'')"
  using register_get_roundtrip [of initial_state "makeCommand ''test.a''"]
    register_get_roundtrip [of "registry_with (makeCommand ''test.a'')"
       "(makeCommand ''test.a'')\<lparr> label := ''Other'' \<rparr>"]
  by (simp add: get_def initial_state_def makeCommand_def register_def registry_with_def
      prototype_member_def object_prototype_functions_def found_def get_property_def spread_with_def)

text \<open>
  Claim C5 at a failing input. On a registry that holds nothing, the owner
  \<open>constructor\<close> has no registration, yet \<open>unregisterForOwner\<close> of it throws: \<open>owners[owner]\<close>
  finds the function \<open>Object\<close>, which is not nullish, has length 1 and is not iterable.
  \<open>registerForOwner\<close> for that owner, and for the owner \<open>toString\<close>, throws as well, so
  nothing is registered for it, neither the first list nor a second.
\<close>

theorem owner_inherited_name_throws:
  "owners initial_state ''constructor'' = None
   \<and> unregisterForOwner initial_state ''constructor'' = Inl (ErrorObj ''ids is not iterable'')
   \<and> registerForOwner initial_state ''constructor'' [makeCommand ''x'', makeCommand ''y'']
       = Inl (ErrorObj ''oldIds is not iterable'')
   \<and> registerForOwner initial_state ''toString'' [makeCommand ''x'']
       = Inl (ErrorObj ''oldIds is not iterable'')"
  by (simp add: unregisterForOwner_def registerForOwner_def owner_ids_def initial_state_def
      prototype_member_def object_prototype_functions_def)

text \<open>
  What holds of the owner operations. When the owner has an entry \<open>old\<close> in \<open>owners\<close>, or
  has none and its name is no member of \<open>Object.prototype\<close> (then \<open>old\<close> is empty), and no
  definition has the id \<open>__proto__\<close>: \<open>registerForOwner owner l1\<close> and then
  \<open>registerForOwner owner l2\<close> both succeed; afterwards the owner's entry lists exactly the
  ids of \<open>l2\<close>, no id of \<open>l1\<close> that is not an id of \<open>l2\<close> is an own key of \<open>commands\<close>,
  every id of \<open>l2\<close> is registered with a definition of \<open>l2\<close> (with each definition of \<open>l2\<close>
  when their ids are distinct), the own keys outside \<open>l1\<close>, \<open>l2\<close> and \<open>old\<close> are as before,
  and so are the entries of the other owners. And \<open>unregisterForOwner\<close> of an owner without
  an entry, whose name is no member of \<open>Object.prototype\<close>, returns with the state
  unchanged.
\<close>

theorem registerForOwner_replaces:
  "((owners st owner = Some old \<or> (owners st owner = None \<and> prototype_member owner = None \<and> old = []))
    \<and> list_all (\<lambda>d. cmd_id d \<noteq> ''__proto__'') (l1 @ l2) \<longrightarrow>
     (\<exists>st1 st2. registerForOwner st owner l1 = Inr st1 \<and> registerForOwner st1 owner l2 = Inr st2
        \<and> owners st2 owner = Some (map cmd_id l2)
        \<and> (\<forall>i \<in> cmd_id ` set l1 - cmd_id ` set l2. own (commands st2) i = None)
        \<and> (\<forall>i \<in> cmd_id ` set l2. \<exists>d \<in> set l2. cmd_id d = i \<and> get st2 i = Some (Definition d))
        \<and> (distinct (map cmd_id l2) \<longrightarrow>
             (\<forall>d \<in> set l2. get st2 (cmd_id d) = Some (Definition d)))
        \<and> (\<forall>i. i \<notin> cmd_id ` set l1 \<and> i \<notin> cmd_id ` set l2 \<and> i \<notin> set old \<longrightarrow>
              own (commands st2) i = own (commands st) i)
        \<and> (\<forall>o2. o2 \<noteq> owner \<longrightarrow> owners st2 o2 = owners st o2)))
   \<and> (owners st owner = None \<and> prototype_member owner = None \<longrightarrow>
        unregisterForOwner st owner = Inr st)"
proof (intro conjI impI)
  assume "owners st owner = None \<and> prototype_member owner = None"
  then show "unregisterForOwner st owner = Inr st"
    by (simp add: unregisterForOwner_def owner_ids_def)
next
  assume a: "(owners st owner = Some old \<or> (owners st owner = None \<and> prototype_member owner = None \<and> old = []))
   \<and> list_all (\<lambda>d. cmd_id d \<noteq> ''__proto__'') (l1 @ l2)"
  then have ok1: "list_all (\<lambda>d. cmd_id d \<noteq> ''__proto__'') l1"
    and ok2: "list_all (\<lambda>d. cmd_id d \<noteq> ''__proto__'') l2" by simp_all
  from a have ids: "owner_ids st owner = Ids old" by (auto simp: owner_ids_def)
  have "proto (delete_ids old (spread_copy (commands st))) = None"
    by (simp add: delete_ids_proto spread_copy_def)
  from assign_cmds_plain [OF ok1 this] obtain c1 where
    a1: "assign_cmds l1 (delete_ids old (spread_copy (commands st))) = Inr c1"
    and o1: "\<forall>k. k \<notin> cmd_id ` set l1 \<longrightarrow> own c1 k = own (delete_ids old (spread_copy (commands st))) k"
    by blast
  let ?st1 = "st\<lparr> commands := c1, owners := (owners st)(owner \<mapsto> map cmd_id l1) \<rparr>"
  have "proto (delete_ids (map cmd_id l1) (spread_copy c1)) = None"
    by (simp add: delete_ids_proto spread_copy_def)
  from assign_cmds_plain [OF ok2 this] obtain c2 where
    a2: "assign_cmds l2 (delete_ids (map cmd_id l1) (spread_copy c1)) = Inr c2"
    and o2: "\<forall>k. k \<notin> cmd_id ` set l2 \<longrightarrow> own c2 k = own (delete_ids (map cmd_id l1) (spread_copy c1)) k"
    and i2: "\<forall>k \<in> cmd_id ` set l2. \<exists>d \<in> set l2. cmd_id d = k \<and> own c2 k = Some d"
    and d2: "distinct (map cmd_id l2) \<longrightarrow> (\<forall>d \<in> set l2. own c2 (cmd_id d) = Some d)"
    by blast
  let ?st2 = "?st1\<lparr> commands := c2, owners := (owners ?st1)(owner \<mapsto> map cmd_id l2) \<rparr>"
  from ids a1 have r1: "registerForOwner st owner l1 = Inr ?st1"
    by (simp add: registerForOwner_def)
  have "owner_ids ?st1 owner = Ids (map cmd_id l1)" by (simp add: owner_ids_def)
  with a2 have r2: "registerForOwner ?st1 owner l2 = Inr ?st2"
    by (simp add: registerForOwner_def)
  have o: "owners ?st2 owner = Some (map cmd_id l2)" by simp
  have b: "\<forall>i \<in> cmd_id ` set l1 - cmd_id ` set l2. own (commands ?st2) i = None"
    using o2 by (auto simp: delete_ids_own)
  have c: "\<forall>i \<in> cmd_id ` set l2. \<exists>d \<in> set l2. cmd_id d = i \<and> get ?st2 i = Some (Definition d)"
  proof
    fix i assume "i \<in> cmd_id ` set l2"
    with i2 obtain d where "d \<in> set l2" "cmd_id d = i" "own c2 i = Some d" by blast
    then show "\<exists>d \<in> set l2. cmd_id d = i \<and> get ?st2 i = Some (Definition d)"
      by (intro bexI [of _ d]) (simp_all add: get_def get_own)
  qed
  have d: "distinct (map cmd_id l2) \<longrightarrow> (\<forall>d \<in> set l2. get ?st2 (cmd_id d) = Some (Definition d))"
    using d2 by (simp add: get_def get_own)
  have e: "\<forall>i. i \<notin> cmd_id ` set l1 \<and> i \<notin> cmd_id ` set l2 \<and> i \<notin> set old \<longrightarrow>
         own (commands ?st2) i = own (commands st) i"
    using o1 o2 by (simp add: delete_ids_own spread_copy_def)
  have f: "\<forall>o2. o2 \<noteq> owner \<longrightarrow> owners ?st2 o2 = owners st o2" by simp
  from r1 r2 o b c d e f
  show "\<exists>st1 st2. registerForOwner st owner l1 = Inr st1 \<and> registerForOwner st1 owner l2 = Inr st2
        \<and> owners st2 owner = Some (map cmd_id l2)
        \<and> (\<forall>i \<in> cmd_id ` set l1 - cmd_id ` set l2. own (commands st2) i = None)
        \<and> (\<forall>i \<in> cmd_id ` set l2. \<exists>d \<in> set l2. cmd_id d = i \<and> get st2 i = Some (Definition d))
        \<and> (distinct (map cmd_id l2) \<longrightarrow>
             (\<forall>d \<in> set l2. get st2 (cmd_id d) = Some (Definition d)))
        \<and> (\<forall>i. i \<notin> cmd_id ` set l1 \<and> i \<notin> cmd_id ` set l2 \<and> i \<notin> set old \<longrightarrow>
              own (commands st2) i = own (commands st) i)
        \<and> (\<forall>o2. o2 \<noteq> owner \<longrightarrow> owners st2 o2 = owners st o2)"
    by (intro exI [of _ ?st1] exI [of _ ?st2] conjI)
qed

theorem registerForOwner_replaces_witness:
  "owners initial_state ''panel'' = None \<and> prototype_member ''panel'' = None
   \<and> list_all (\<lambda>d. cmd_id d \<noteq> ''__proto__'') ([makeCommand ''x'', makeCommand ''y''] @ [makeCommand ''z''])
   \<and> (\<exists>st1 st2. registerForOwner initial_state ''panel'' [makeCommand ''x'', makeCommand ''y''] = Inr st1
         \<and> get st1 ''x'' = Some (Definition (makeCommand ''x''))
         \<and> get st1 ''y'' = Some (Definition (makeCommand ''y''))
         \<and> owners st1 ''panel'' = Some [''x'', ''y'']
         \<and> registerForOwner st1 ''panel'' [makeCommand ''z''] = Inr st2
         \<and> owners st2 ''panel'' = Some [''z'']
         \<and> get st2 ''x'' = None \<and> get st2 ''y'' = None
         \<and> get st2 ''z'' = Some (Definition (makeCommand ''z'')))
   \<and> unregisterForOwner initial_state ''panel'' = Inr initial_state"
  using registerForOwner_replaces [of initial_state "''panel''" "[]"
      "[makeCommand ''x'', makeCommand ''y'']" "[makeCommand ''z'']"]
  by (simp add: initial_state_def makeCommand_def registerForOwner_def unregisterForOwner_def
      owner_ids_def prototype_member_def object_prototype_functions_def get_def get_property_def
      spread_copy_def delete_property_def assign_property_def inherits_read_only_def)

text \<open>
  Claim C10 at a failing input. The id \<open>app.save\<close> is registered; \<open>registerForOwner\<close>
  with a definition of that id for the owner \<open>constructor\<close>, or \<open>hasOwnProperty\<close>, does
  not replace it but throws: the loop over \<open>owners[owner] ?? []\<close> gets the function of
  that name inherited from \<open>Object.prototype\<close>.
\<close>

theorem registerForOwner_inherited_owner_throws:
  "get (registry_with (makeCommand ''app.save'')) ''app.save'' = Some (Definition (makeCommand ''app.save''))
   \<and> registerForOwner (registry_with (makeCommand ''app.save'')) ''constructor''
        [(makeCommand ''app.save'')\<lparr> label := ''Save (panel)'' \<rparr>]
       = Inl (ErrorObj ''oldIds is not iterable'')
   \<and> registerForOwner (registry_with (makeCommand ''app.save'')) ''hasOwnProperty''
        [(makeCommand ''app.save'')\<lparr> label := ''Save (panel)'' \<rparr>]
       = Inl (ErrorObj ''oldIds is not iterable'')"
  by (simp add: registerForOwner_def owner_ids_def registry_with_def get_def get_property_def
      prototype_member_def object_prototype_functions_def makeCommand_def)

text \<open>
  What holds of \<open>registerForOwner\<close> on a registered id. There is no duplicate check:
  when the id of \<open>d\<close> is an own key of \<open>commands\<close>, with whatever definition and by
  whatever party, and the owner has an entry or a name that is no member of
  \<open>Object.prototype\<close>, registering \<open>[d]\<close> for the owner replaces the definition with \<open>d\<close>,
  and \<open>unregisterForOwner\<close> of that owner then removes the id.
\<close>

theorem registerForOwner_overwrites:
  "own (commands st) (cmd_id d) = Some d0 \<and> cmd_id d \<noteq> ''__proto__''
   \<and> (owners st owner = Some old \<or> (owners st owner = None \<and> prototype_member owner = None))
   \<longrightarrow>
     (\<exists>st1 st2. registerForOwner st owner [d] = Inr st1
        \<and> get st1 (cmd_id d) = Some (Definition d)
        \<and> owners st1 owner = Some [cmd_id d]
        \<and> unregisterForOwner st1 owner = Inr st2
        \<and> own (commands st2) (cmd_id d) = None
        \<and> owners st2 owner = None)"
  by (auto simp: registerForOwner_def unregisterForOwner_def owner_ids_def get_def get_property_def
      assign_property_def inherits_read_only_def delete_property_def delete_ids_own delete_ids_proto
      spread_copy_def)

theorem registerForOwner_overwrites_witness:
  "own (commands (registry_with (makeCommand ''app.save'')))
       (cmd_id ((makeCommand ''app.save'')\<lparr> label := ''Save (panel)'' \<rparr>))
     = Some (makeCommand ''app.save'')
   \<and> cmd_id ((makeCommand ''app.save'')\<lparr> label := ''Save (panel)'' \<rparr>) \<noteq> ''__proto__''
   \<and> owners (registry_with (makeCommand ''app.save'')) ''panel'' = None
   \<and> prototype_member ''panel'' = None
   \<and> (\<exists>st1 st2. registerForOwner (registry_with (makeCommand ''app.save'')) ''panel''
                    [(makeCommand ''app.save'')\<lparr> label := ''Save (panel)'' \<rparr>] = Inr st1
         \<and> get st1 ''app.save'' = Some (Definition ((makeCommand ''app.save'')\<lparr> label := ''Save (panel)'' \<rparr>))
         \<and> unregisterForOwner st1 ''panel'' = Inr st2
         \<and> get st2 ''app.save'' = None)"
  using registerForOwner_overwrites [of "registry_with (makeCommand ''app.save'')"
      "(makeCommand ''app.save'')\<lparr> label := ''Save (panel)'' \<rparr>" "makeCommand ''app.save''"
      "''panel''" "[]"]
  by (simp add: registry_with_def makeCommand_def registerForOwner_def unregisterForOwner_def
      owner_ids_def prototype_member_def object_prototype_functions_def get_def get_property_def
      spread_copy_def delete_property_def assign_property_def inherits_read_only_def)

section \<open>The pipeline: termination, order and short-circuit\<close>




lemma own_events_simps [simp]:
  "own_events who []"
  "own_events who (evs @ evs') = (own_events who evs \<and> own_events who evs')"
  "own_events who (FromMw j e # evs) = (j = who \<and> own_events who evs)"
  by (simp_all add: own_events_def)

lemma handler_seen_simps [simp]:
  "\<not> handler_seen []"
  "handler_seen (evs @ evs') = (handler_seen evs \<or> handler_seen evs')"
  "handler_seen (HandlerInvoked p c # evs)"
  "handler_seen (HandlerCalledBy j p c # evs)"
  "handler_seen (MwEntered j p c # evs) = handler_seen evs"
  "handler_seen (NextCalled j # evs) = handler_seen evs"
  "handler_seen (FromMw j x # evs) = handler_seen evs"
  by (simp_all add: handler_seen_def)

lemma entered_append [simp]: "entered (evs @ evs') = entered evs @ entered evs'"
  by (induction evs rule: entered.induct) simp_all

lemma own_events_not_seen: "own_events who evs \<Longrightarrow> \<not> handler_seen evs"
  by (induction evs) (auto simp: own_events_def handler_seen_def split: event.splits)

lemma own_events_not_entered: "own_events who evs \<Longrightarrow> entered evs = []"
  by (induction evs rule: entered.induct) (auto simp: own_events_def)

lemma run_mw_settles_alone:
  "settles_alone p \<Longrightarrow> run_mw p who exec nx st = Some (r, st') \<Longrightarrow>
     \<exists>evs. own_events who evs \<and> st' = st\<lparr> trace := trace st @ evs \<rparr>"
proof (induction p arbitrary: st)
  case (Done x)
  then show ?case by (auto intro: exI [of _ "[]"])
next
  case (Emit e p)
  from Emit.prems have "settles_alone p"
    and "run_mw p who exec nx (st\<lparr> trace := trace st @ [FromMw who e] \<rparr>) = Some (r, st')"
    by simp_all
  from Emit.IH [OF this] obtain evs where "own_events who evs"
    and "st' = st\<lparr> trace := trace st @ [FromMw who e] @ evs \<rparr>" by auto
  then show ?case by (intro exI [of _ "[FromMw who e] @ evs"]) simp
next
  case (CallNext k)
  then show ?case by simp
next
  case (CallExecute p c k)
  then show ?case by simp
qed

lemma run_mw_one_next:
  "at_most_one_next p \<Longrightarrow> run_mw p who exec nx st = Some (r, st') \<Longrightarrow>
     (\<exists>evs. own_events who evs \<and> st' = st\<lparr> trace := trace st @ evs \<rparr>)
   \<or> (\<exists>evs1 r1 s1 evs2. own_events who evs1 \<and> own_events who evs2
         \<and> nx (st\<lparr> trace := trace st @ evs1 @ [NextCalled who] \<rparr>) = Some (r1, s1)
         \<and> st' = s1\<lparr> trace := trace s1 @ evs2 \<rparr>)"
proof (induction p arbitrary: st)
  case (Done x)
  then show ?case by (auto intro: exI [of _ "[]"])
next
  case (Emit e p)
  let ?st0 = "st\<lparr> trace := trace st @ [FromMw who e] \<rparr>"
  from Emit.prems have "at_most_one_next p"
    and "run_mw p who exec nx ?st0 = Some (r, st')" by simp_all
  from Emit.IH [OF this] show ?case
  proof
    assume "\<exists>evs. own_events who evs \<and> st' = ?st0\<lparr> trace := trace ?st0 @ evs \<rparr>"
    then obtain evs where "own_events who evs" "st' = st\<lparr> trace := trace st @ [FromMw who e] @ evs \<rparr>"
      by auto
    then have "own_events who ([FromMw who e] @ evs)
        \<and> st' = st\<lparr> trace := trace st @ ([FromMw who e] @ evs) \<rparr>"
      by simp
    then show ?thesis by blast
  next
    assume "\<exists>evs1 r1 s1 evs2. own_events who evs1 \<and> own_events who evs2
         \<and> nx (?st0\<lparr> trace := trace ?st0 @ evs1 @ [NextCalled who] \<rparr>) = Some (r1, s1)
         \<and> st' = s1\<lparr> trace := trace s1 @ evs2 \<rparr>"
    then obtain evs1 r1 s1 evs2 where "own_events who evs1" "own_events who evs2"
      "nx (st\<lparr> trace := trace st @ ([FromMw who e] @ evs1) @ [NextCalled who] \<rparr>) = Some (r1, s1)"
      "st' = s1\<lparr> trace := trace s1 @ evs2 \<rparr>" by auto
    then have "own_events who ([FromMw who e] @ evs1) \<and> own_events who evs2
      \<and> nx (st\<lparr> trace := trace st @ ([FromMw who e] @ evs1) @ [NextCalled who] \<rparr>) = Some (r1, s1)
      \<and> st' = s1\<lparr> trace := trace s1 @ evs2 \<rparr>" by simp
    then show ?thesis by blast
  qed
next
  case (CallNext k)
  from CallNext.prems obtain r1 s1 where
    step: "nx (st\<lparr> trace := trace st @ [NextCalled who] \<rparr>) = Some (r1, s1)"
    and rest: "run_mw (k r1) who exec nx s1 = Some (r, st')"
    by (auto split: option.splits)
  from CallNext.prems have "settles_alone (k r1)" by simp
  from run_mw_settles_alone [OF this rest] obtain evs2 where
    "own_events who evs2" "st' = s1\<lparr> trace := trace s1 @ evs2 \<rparr>" by blast
  with step have "own_events who [] \<and> own_events who evs2
      \<and> nx (st\<lparr> trace := trace st @ [] @ [NextCalled who] \<rparr>) = Some (r1, s1)
      \<and> st' = s1\<lparr> trace := trace s1 @ evs2 \<rparr>" by simp
  then show ?case by blast
next
  case (CallExecute p c k)
  then show ?case by simp
qed

lemma next_step_linear:
  assumes lin: "list_all (\<lambda>mw. at_most_one_next (mw command params ctx)) mws"
  shows "next_step mws command params ctx depth st = Some (r, st') \<Longrightarrow>
     \<exists>evs. trace st' = trace st @ evs \<and> index st \<le> index st'
       \<and> entered evs = [index st ..< index st']
       \<and> (handler_seen evs \<longrightarrow> (\<forall>j. index st \<le> j \<and> j < length mws \<longrightarrow> NextCalled j \<in> set evs))"
proof (induction depth arbitrary: st r st')
  case 0
  then have "\<not> index st < length mws" and "st' = st\<lparr> trace := trace st @ [HandlerInvoked params ctx] \<rparr>"
    by (auto simp: call_handler_def split: if_splits)
  then show ?case by (intro exI [of _ "[HandlerInvoked params ctx]"]) simp
next
  case (Suc depth)
  show ?case
  proof (cases "index st < length mws")
    case False
    with Suc.prems have "st' = st\<lparr> trace := trace st @ [HandlerInvoked params ctx] \<rparr>"
      by (auto simp: call_handler_def)
    with False show ?thesis by (intro exI [of _ "[HandlerInvoked params ctx]"]) simp
  next
    case True
    let ?i = "index st"
    let ?st1 = "st\<lparr> index := ?i + 1, trace := trace st @ [MwEntered ?i params ctx] \<rparr>"
    let ?nx = "next_step mws command params ctx depth"
    from lin True have one: "at_most_one_next ((mws ! ?i) command params ctx)"
      by (simp add: list_all_length)
    from Suc.prems True
    have run: "run_mw ((mws ! ?i) command params ctx) ?i (ref_execute command) ?nx ?st1 = Some (r, st')"
      by simp
    from run_mw_one_next [OF one run] show ?thesis
    proof
      assume "\<exists>evs. own_events ?i evs \<and> st' = ?st1\<lparr> trace := trace ?st1 @ evs \<rparr>"
      then obtain evs where own: "own_events ?i evs"
        and st': "st' = ?st1\<lparr> trace := trace ?st1 @ evs \<rparr>" by blast
      let ?evs = "[MwEntered ?i params ctx] @ evs"
      from own have "\<not> handler_seen ?evs" by (simp add: own_events_not_seen)
      moreover from st' have "trace st' = trace st @ ?evs" by simp
      moreover from st' have "index st' = ?i + 1" by simp
      moreover from own have "entered ?evs = [?i]" by (simp add: own_events_not_entered)
      ultimately have "trace st' = trace st @ ?evs \<and> ?i \<le> index st'
          \<and> entered ?evs = [?i ..< index st']
          \<and> (handler_seen ?evs \<longrightarrow> (\<forall>j. ?i \<le> j \<and> j < length mws \<longrightarrow> NextCalled j \<in> set ?evs))"
        by simp
      then show ?thesis by blast
    next
      assume "\<exists>evs1 r1 s1 evs2. own_events ?i evs1 \<and> own_events ?i evs2
         \<and> ?nx (?st1\<lparr> trace := trace ?st1 @ evs1 @ [NextCalled ?i] \<rparr>) = Some (r1, s1)
         \<and> st' = s1\<lparr> trace := trace s1 @ evs2 \<rparr>"
      then obtain evs1 r1 s1 evs2 where own1: "own_events ?i evs1" and own2: "own_events ?i evs2"
        and step: "?nx (?st1\<lparr> trace := trace ?st1 @ evs1 @ [NextCalled ?i] \<rparr>) = Some (r1, s1)"
        and st': "st' = s1\<lparr> trace := trace s1 @ evs2 \<rparr>" by blast
      from Suc.IH [OF step] obtain evsI where
        tr: "trace s1 = trace st @ [MwEntered ?i params ctx] @ evs1 @ [NextCalled ?i] @ evsI"
        and le: "?i + 1 \<le> index s1"
        and en: "entered evsI = [?i + 1 ..< index s1]"
        and inner: "handler_seen evsI \<longrightarrow> (\<forall>j. ?i + 1 \<le> j \<and> j < length mws \<longrightarrow> NextCalled j \<in> set evsI)"
        by auto
      let ?evs = "[MwEntered ?i params ctx] @ evs1 @ [NextCalled ?i] @ evsI @ evs2"
      from tr st' have t: "trace st' = trace st @ ?evs" by simp
      from st' have ix: "index st' = index s1" by simp
      from le have "[?i ..< index s1] = ?i # [?i + 1 ..< index s1]"
        by (simp add: upt_conv_Cons)
      with en own1 own2 have e: "entered ?evs = [?i ..< index s1]"
        by (simp add: own_events_not_entered)
      have "handler_seen ?evs \<longrightarrow> (\<forall>j. ?i \<le> j \<and> j < length mws \<longrightarrow> NextCalled j \<in> set ?evs)"
      proof (intro impI allI)
        fix j
        assume seen: "handler_seen ?evs" and j: "?i \<le> j \<and> j < length mws"
        from seen own1 own2 have "handler_seen evsI"
          by (simp add: own_events_not_seen)
        with inner have all: "\<forall>j. ?i + 1 \<le> j \<and> j < length mws \<longrightarrow> NextCalled j \<in> set evsI" by blast
        show "NextCalled j \<in> set ?evs"
        proof (cases "j = ?i")
          case True
          then show ?thesis by simp
        next
          case False
          with j have "?i + 1 \<le> j \<and> j < length mws" by simp
          with all have "NextCalled j \<in> set evsI" by blast
          then show ?thesis by simp
        qed
      qed
      with t ix le e show ?thesis by (intro exI [of _ ?evs]) simp
    qed
  qed
qed

lemma run_mw_settles_body:
  "settles_alone p \<Longrightarrow>
     run_mw p who exec nx st
       = Some (fst (run_body p who exec inner),
               st\<lparr> trace := trace st @ snd (run_body p who exec inner) \<rparr>)"
  by (induction p arbitrary: st) simp_all

lemma run_mw_one_next_body:
  assumes nx: "\<And>s. index s = n \<Longrightarrow>
      \<exists>n'. nx s = Some (fst inner, s\<lparr> index := n', trace := trace s @ snd inner \<rparr>)"
  shows "at_most_one_next p \<Longrightarrow> index st = n \<Longrightarrow>
     \<exists>n'. run_mw p who exec nx st
       = Some (fst (run_body p who exec inner),
               st\<lparr> index := n', trace := trace st @ snd (run_body p who exec inner) \<rparr>)"
proof (induction p arbitrary: st)
  case (Done r)
  then show ?case by (intro exI [of _ "index st"]) simp
next
  case (Emit e p)
  from Emit.prems have "at_most_one_next p"
    and "index (st\<lparr> trace := trace st @ [FromMw who e] \<rparr>) = n" by simp_all
  from Emit.IH [OF this] show ?case by simp
next
  case (CallNext k)
  from CallNext.prems have "index (st\<lparr> trace := trace st @ [NextCalled who] \<rparr>) = n" by simp
  from nx [OF this] obtain n' where
    step: "nx (st\<lparr> trace := trace st @ [NextCalled who] \<rparr>)
        = Some (fst inner, st\<lparr> index := n', trace := trace st @ [NextCalled who] @ snd inner \<rparr>)"
    by auto
  from CallNext.prems have "settles_alone (k (fst inner))" by simp
  from run_mw_settles_body [OF this, of who exec nx _ inner] step
  show ?case by (intro exI [of _ n']) simp
next
  case (CallExecute p c k)
  then show ?case by simp
qed

lemma next_step_right_fold:
  assumes lin: "list_all (\<lambda>mw. at_most_one_next (mw command params ctx)) mws"
  shows "length mws \<le> index st + depth \<Longrightarrow>
     \<exists>n'. next_step mws command params ctx depth st
       = Some (fst (right_fold (drop (index st) mws) (index st) command params ctx),
               st\<lparr> index := n',
                   trace := trace st @ snd (right_fold (drop (index st) mws) (index st) command params ctx) \<rparr>)"
proof (induction depth arbitrary: st)
  case 0
  then show ?case by (intro exI [of _ "index st"]) (simp add: call_handler_def)
next
  case (Suc depth)
  show ?case
  proof (cases "index st < length mws")
    case False
    then show ?thesis by (intro exI [of _ "index st"]) (simp add: call_handler_def)
  next
    case True
    let ?i = "index st"
    let ?st1 = "st\<lparr> index := ?i + 1, trace := trace st @ [MwEntered ?i params ctx] \<rparr>"
    let ?inner = "right_fold (drop (Suc ?i) mws) (Suc ?i) command params ctx"
    from True have drop: "drop ?i mws = mws ! ?i # drop (Suc ?i) mws"
      by (simp add: Cons_nth_drop_Suc)
    from lin True have one: "at_most_one_next ((mws ! ?i) command params ctx)"
      by (simp add: list_all_length)
    have nx: "\<And>s. index s = Suc ?i \<Longrightarrow>
        \<exists>n'. next_step mws command params ctx depth s
          = Some (fst ?inner, s\<lparr> index := n', trace := trace s @ snd ?inner \<rparr>)"
    proof -
      fix s :: run_state
      assume a: "index s = Suc ?i"
      with Suc.prems have "length mws \<le> index s + depth" by simp
      from Suc.IH [OF this] a show
        "\<exists>n'. next_step mws command params ctx depth s
          = Some (fst ?inner, s\<lparr> index := n', trace := trace s @ snd ?inner \<rparr>)"
        by simp
    qed
    have "index ?st1 = Suc ?i" by simp
    from run_mw_one_next_body [of "Suc ?i" "next_step mws command params ctx depth" ?inner,
        OF nx one this, of ?i "ref_execute command"]
    obtain n' where "run_mw ((mws ! ?i) command params ctx) ?i (ref_execute command)
        (next_step mws command params ctx depth) ?st1
      = Some (fst (run_body ((mws ! ?i) command params ctx) ?i (ref_execute command) ?inner),
              ?st1\<lparr> index := n',
                    trace := trace ?st1 @ snd (run_body ((mws ! ?i) command params ctx) ?i
                                               (ref_execute command) ?inner) \<rparr>)"
      by blast
    with True drop show ?thesis by (intro exI [of _ n']) simp
  qed
qed

lemma runMiddleware_right_fold:
  assumes "list_all (\<lambda>mw. at_most_one_next (mw command params ctx)) mws"
  shows "\<exists>rs. runMiddleware mws command params ctx
            = Some (fst (right_fold mws 0 command params ctx), rs)
          \<and> trace rs = snd (right_fold mws 0 command params ctx)"
  using next_step_right_fold [OF assms, of "\<lparr> index = 0, trace = [] \<rparr>" "length mws"]
  unfolding runMiddleware_def by auto

text \<open>
  Claim C4, amended. When every middleware of the list calls \<open>next()\<close> at most once and
  never calls the handler itself, the chain \<open>runMiddleware\<close> runs is the right fold of the
  list around the handler, the first middleware outermost and the handler innermost, in
  array order: it returns, and its outcome and its trace are those of \<open>right_fold\<close>. The
  middlewares are entered in the order of their positions, and the handler is invoked
  only if every middleware of the list called \<open>next()\<close>, so a middleware that settles
  without calling \<open>next()\<close> keeps the handler from being invoked. With the middlewares A
  then B, each logging before and after its \<open>await next()\<close>, and a handler that
  resolves, the trace is A entered, A-before, A calls next, B entered, B-before, B calls
  next, the handler, B-after, A-after.
\<close>

theorem middleware_order_single_next:
  "(list_all (\<lambda>mw. at_most_one_next (mw command params ctx)) mws \<longrightarrow>
      (\<exists>rs. runMiddleware mws command params ctx
               = Some (fst (right_fold mws 0 command params ctx), rs)
          \<and> trace rs = snd (right_fold mws 0 command params ctx)
          \<and> entered (trace rs) = [0 ..< index rs]
          \<and> (handler_seen (trace rs) \<longrightarrow> (\<forall>j<length mws. NextCalled j \<in> set (trace rs)))))
   \<and> (\<forall>result. ref_execute command params ctx = Inr result \<longrightarrow>
        runMiddleware [observer a1 a2, observer b1 b2] command params ctx
          = Some (Inr result,
                  \<lparr> index = 2,
                    trace = [MwEntered 0 params ctx, FromMw 0 (Log a1), NextCalled 0,
                             MwEntered 1 params ctx, FromMw 1 (Log b1), NextCalled 1,
                             HandlerInvoked params ctx,
                             FromMw 1 (Log b2), FromMw 0 (Log a2)] \<rparr>))"
proof (intro conjI impI allI)
  assume lin: "list_all (\<lambda>mw. at_most_one_next (mw command params ctx)) mws"
  from runMiddleware_right_fold [OF lin] obtain rs where
    run: "runMiddleware mws command params ctx = Some (fst (right_fold mws 0 command params ctx), rs)"
    and tr: "trace rs = snd (right_fold mws 0 command params ctx)" by blast
  from run have "next_step mws command params ctx (length mws) \<lparr> index = 0, trace = [] \<rparr>
      = Some (fst (right_fold mws 0 command params ctx), rs)"
    by (simp add: runMiddleware_def)
  from next_step_linear [OF lin this]
  have "entered (trace rs) = [0 ..< index rs]"
    and "handler_seen (trace rs) \<longrightarrow> (\<forall>j<length mws. NextCalled j \<in> set (trace rs))" by auto
  with run tr show "\<exists>rs. runMiddleware mws command params ctx
               = Some (fst (right_fold mws 0 command params ctx), rs)
          \<and> trace rs = snd (right_fold mws 0 command params ctx)
          \<and> entered (trace rs) = [0 ..< index rs]
          \<and> (handler_seen (trace rs) \<longrightarrow> (\<forall>j<length mws. NextCalled j \<in> set (trace rs)))"
    by blast
next
  fix result
  assume "ref_execute command params ctx = Inr result"
  then show "runMiddleware [observer a1 a2, observer b1 b2] command params ctx
          = Some (Inr result,
                  \<lparr> index = 2,
                    trace = [MwEntered 0 params ctx, FromMw 0 (Log a1), NextCalled 0,
                             MwEntered 1 params ctx, FromMw 1 (Log b1), NextCalled 1,
                             HandlerInvoked params ctx,
                             FromMw 1 (Log b2), FromMw 0 (Log a2)] \<rparr>)"
    by (simp add: runMiddleware_def observer_def call_handler_def)
qed

theorem middleware_order_single_next_witness:
  "list_all (\<lambda>mw. at_most_one_next (mw (Definition (makeCommand ''test.mw'')) JUndefined empty_context))
     [observer ''mw1-before'' ''mw1-after'', blocker, observer ''mw3-before'' ''mw3-after'']
   \<and> runMiddleware [observer ''mw1-before'' ''mw1-after'', blocker, observer ''mw3-before'' ''mw3-after'']
        (Definition (makeCommand ''test.mw'')) JUndefined empty_context
      = Some (Inr \<lparr> success = False, message = Some ''blocked'', data = None \<rparr>,
              \<lparr> index = 2,
                trace = [MwEntered 0 JUndefined empty_context, FromMw 0 (Log ''mw1-before''),
                         NextCalled 0, MwEntered 1 JUndefined empty_context,
                         FromMw 0 (Log ''mw1-after'')] \<rparr>)
   \<and> list_all (\<lambda>mw. at_most_one_next (mw (Definition (makeCommand ''test.mw'')) JUndefined empty_context))
       [observer ''mw1-before'' ''mw1-after'', observer ''mw2-before'' ''mw2-after'',
        observer ''mw3-before'' ''mw3-after'']
   \<and> runMiddleware [observer ''mw1-before'' ''mw1-after'', observer ''mw2-before'' ''mw2-after'',
                     observer ''mw3-before'' ''mw3-after'']
        (Definition (makeCommand ''test.mw'')) JUndefined empty_context
      = Some (Inr \<lparr> success = True, message = None, data = None \<rparr>,
              \<lparr> index = 3,
                trace = [MwEntered 0 JUndefined empty_context, FromMw 0 (Log ''mw1-before''), NextCalled 0,
                         MwEntered 1 JUndefined empty_context, FromMw 1 (Log ''mw2-before''), NextCalled 1,
                         MwEntered 2 JUndefined empty_context, FromMw 2 (Log ''mw3-before''), NextCalled 2,
                         HandlerInvoked JUndefined empty_context,
                         FromMw 2 (Log ''mw3-after''), FromMw 1 (Log ''mw2-after''),
                         FromMw 0 (Log ''mw1-after'')] \<rparr>)
   \<and> ref_execute (Definition (makeCommand ''test.mw'')) JUndefined empty_context
      = Inr \<lparr> success = True, message = None, data = None \<rparr>
   \<and> runMiddleware [observer ''mw1-before'' ''mw1-after'', observer ''mw2-before'' ''mw2-after'']
        (Definition (makeCommand ''test.mw'')) JUndefined empty_context
      = Some (Inr \<lparr> success = True, message = None, data = None \<rparr>,
              \<lparr> index = 2,
                trace = [MwEntered 0 JUndefined empty_context, FromMw 0 (Log ''mw1-before''), NextCalled 0,
                         MwEntered 1 JUndefined empty_context, FromMw 1 (Log ''mw2-before''), NextCalled 1,
                         HandlerInvoked JUndefined empty_context,
                         FromMw 1 (Log ''mw2-after''), FromMw 0 (Log ''mw1-after'')] \<rparr>)"
  using middleware_order_single_next [of "Definition (makeCommand ''test.mw'')" JUndefined empty_context
      "[observer ''mw1-before'' ''mw1-after'', blocker, observer ''mw3-before'' ''mw3-after'']"
      "''mw1-before''" "''mw1-after''" "''mw2-before''" "''mw2-after''"]
    middleware_order_single_next [of "Definition (makeCommand ''test.mw'')" JUndefined empty_context
      "[observer ''mw1-before'' ''mw1-after'', observer ''mw2-before'' ''mw2-after'',
        observer ''mw3-before'' ''mw3-after'']"
      "''mw1-before''" "''mw1-after''" "''mw2-before''" "''mw2-after''"]
  by (simp add: runMiddleware_def observer_def blocker_def call_handler_def makeCommand_def
      split: sum.split)

text \<open>
  Claim C4 as stated fails. The cursor of \<open>runMiddleware\<close> is shared by every call of
  \<open>next\<close>, so a second \<open>next()\<close> of an outer middleware continues after the middleware
  that settled: with \<open>[retry_once, blocker]\<close> the blocker (position 1) returns without
  calling \<open>next()\<close>, and the handler is invoked all the same, where the right fold of the
  list would run the blocker again. And a middleware that calls \<open>command.execute\<close> itself
  invokes the handler without any \<open>next()\<close>.
\<close>

theorem short_circuit_counterexample:
  "runMiddleware [retry_once, blocker] (Definition (makeCommand ''test.blocked'')) JUndefined empty_context
     = Some (Inr \<lparr> success = True, message = None, data = None \<rparr>,
             \<lparr> index = 2,
               trace = [MwEntered 0 JUndefined empty_context, NextCalled 0,
                        MwEntered 1 JUndefined empty_context, NextCalled 0,
                        HandlerInvoked JUndefined empty_context] \<rparr>)
   \<and> handler_seen [MwEntered 0 JUndefined empty_context, NextCalled 0,
                    MwEntered 1 JUndefined empty_context, NextCalled 0,
                    HandlerInvoked JUndefined empty_context]
   \<and> NextCalled 1 \<notin> set [MwEntered 0 JUndefined empty_context, NextCalled 0,
                           MwEntered 1 JUndefined empty_context, NextCalled 0,
                           HandlerInvoked JUndefined empty_context]
   \<and> right_fold [retry_once, blocker] 0 (Definition (makeCommand ''test.blocked'')) JUndefined empty_context
     = (Inr \<lparr> success = False, message = Some ''blocked'', data = None \<rparr>,
        [MwEntered 0 JUndefined empty_context, NextCalled 0, MwEntered 1 JUndefined empty_context,
         NextCalled 0, MwEntered 1 JUndefined empty_context])
   \<and> runMiddleware [direct_call, blocker] (Definition (makeCommand ''test.blocked'')) JUndefined empty_context
     = Some (Inr \<lparr> success = True, message = None, data = None \<rparr>,
             \<lparr> index = 1,
               trace = [MwEntered 0 JUndefined empty_context,
                        HandlerCalledBy 0 JUndefined empty_context] \<rparr>)
   \<and> handler_seen [MwEntered 0 JUndefined empty_context, HandlerCalledBy 0 JUndefined empty_context]
   \<and> NextCalled 0 \<notin> set [MwEntered 0 JUndefined empty_context,
                           HandlerCalledBy 0 JUndefined empty_context]"
  by (simp add: runMiddleware_def retry_once_def blocker_def direct_call_def call_handler_def
      makeCommand_def)

section \<open>Execution: errors and guards\<close>

lemma str_includes_append: "str_includes (a @ t @ b) t"
proof (induction a)
  case Nil
  show ?case
  proof (cases "t @ b")
    case Nil
    then show ?thesis by simp
  next
    case (Cons c s)
    have "take (length t) (t @ b) = t" by simp
    with Cons show ?thesis by simp
  qed
next
  case (Cons c a)
  then show ?case by simp
qed


lemma str_includes_self: "str_includes t t"
  using str_includes_append [of "[]" t "[]"] by simp














text \<open>
  Claim C2 at a failing input. The id \<open>constructor\<close> is not registered in a registry
  that holds nothing, but \<open>commands[id]\<close> finds the function \<open>Object\<close> on
  \<open>Object.prototype\<close>, so the guard \<open>!command\<close> passes and the middleware chain is run: a
  middleware that answers from a cache makes \<open>execute\<close> return \<open>success: true\<close>, and
  with the stock middlewares all three are entered and the message, that of the
  \<open>TypeError\<close> of calling \<open>command.execute\<close>, does not contain the id. An
  unregistered id that names no member of \<open>Object.prototype\<close> gives
  \<open>Unknown command: "<id>"\<close>.
\<close>

theorem execute_inherited_id_runs_chain:
  "own (commands initial_state) ''constructor'' = None
   \<and> map_option fst (execute cached_config initial_state ''constructor'' JUndefined None)
       = Some (Inr \<lparr> success = True, message = Some ''served from cache'', data = None \<rparr>)
   \<and> map_option (entered \<circ> snd) (execute cached_config initial_state ''constructor'' JUndefined None)
       = Some [0]
   \<and> map_option fst (execute stock_config initial_state ''constructor'' JUndefined None)
       = Some (Inr \<lparr> success = False, message = Some ''command.execute is not a function'',
                      data = None \<rparr>)
   \<and> map_option (entered \<circ> snd) (execute stock_config initial_state ''constructor'' JUndefined None)
       = Some [0, 1, 2]
   \<and> map_option fst (execute default_config initial_state ''no.such.command'' JUndefined None)
       = Some (Inr \<lparr> success = False, message = Some ''Unknown command: \"no.such.command\"'',
                      data = None \<rparr>)"
  by (simp add: execute_def unknown_command_def failure_def get_property_def initial_state_def
      prototype_member_def object_prototype_functions_def cached_config_def stock_config_def
      default_config_def the_middleware_def the_contextProvider_def buildContext_def
      runMiddleware_def call_handler_def cached_def createDefaultMiddleware_def
      errorBoundaryMiddleware_def loggingMiddleware_def validationMiddleware_def)

text \<open>
  What holds of the guards of \<open>execute\<close>, each ending the call with an empty trace (no
  middleware entered, the handler not invoked). An id that is not an own key of
  \<open>commands\<close> and names no member of \<open>Object.prototype\<close> (the object having no other
  prototype) gives \<open>Unknown command: "<id>"\<close>, whatever the middleware list. A
  definition with a non-empty when-clause that the evaluator rejects gives the message
  naming the id and the clause. A definition whose when-clause is absent, empty or
  accepted and whose \<open>isEnabled\<close> is false for the built context gives
  \<open>Command "<id>" is currently disabled.\<close>
\<close>

theorem execute_guards:
  "(own (commands st) i = None \<and> proto (commands st) = None \<and> prototype_member i = None \<longrightarrow>
      execute config st i params ov
        = Some (Inr \<lparr> success = False, message = Some (''Unknown command: \"'' @ i @ ''\"''),
                       data = None \<rparr>, []))
   \<and> (\<forall>d w. own (commands st) i = Some d \<and> when_clause d = Some w \<and> w \<noteq> []
              \<and> the_evaluateWhen config w = Inr False
        \<longrightarrow> execute config st i params ov
              = Some (Inr \<lparr> success = False,
                             message = Some (''Command \"'' @ i @ ''\" is not available in the current context (when: \"''
                                             @ w @ ''\").''),
                             data = None \<rparr>, []))
   \<and> (\<forall>d enabled ctx.
        own (commands st) i = Some d
        \<and> (when_clause d = None \<or> when_clause d = Some []
             \<or> (\<exists>w. when_clause d = Some w \<and> the_evaluateWhen config w = Inr True))
        \<and> buildContext config (Some (execute_overrides ov)) = Inr ctx
        \<and> isEnabled d = Some enabled \<and> enabled ctx = Inr False
        \<longrightarrow> execute config st i params ov
              = Some (Inr \<lparr> success = False,
                             message = Some (''Command \"'' @ i @ ''\" is currently disabled.''),
                             data = None \<rparr>, []))"
  by (auto simp: execute_def unknown_command_def failure_def get_property_def split: option.splits)

theorem execute_guards_witness:
  "own (commands initial_state) ''no.such.command'' = None
   \<and> proto (commands initial_state) = None \<and> prototype_member ''no.such.command'' = None
   \<and> execute stock_config initial_state ''no.such.command'' JUndefined None
       = Some (Inr \<lparr> success = False, message = Some ''Unknown command: \"no.such.command\"'',
                      data = None \<rparr>, [])
   \<and> own (commands (registry_with gated_command)) ''test.gated'' = Some gated_command
   \<and> when_clause gated_command = Some ''false''
   \<and> the_evaluateWhen gating_config ''false'' = Inr False
   \<and> execute gating_config (registry_with gated_command) ''test.gated'' JUndefined None
       = Some (Inr \<lparr> success = False,
                      message = Some ''Command \"test.gated\" is not available in the current context (when: \"false\").'',
                      data = None \<rparr>, [])
   \<and> own (commands (registry_with disabled_command)) ''test.off'' = Some disabled_command
   \<and> when_clause disabled_command = None
   \<and> (\<exists>ctx enabled. buildContext default_config (Some (execute_overrides None)) = Inr ctx
         \<and> isEnabled disabled_command = Some enabled \<and> enabled ctx = Inr False)
   \<and> execute default_config (registry_with disabled_command) ''test.off'' JUndefined None
       = Some (Inr \<lparr> success = False, message = Some ''Command \"test.off\" is currently disabled.'',
                      data = None \<rparr>, [])"
  using execute_guards [of initial_state "''no.such.command''" stock_config JUndefined None]
    execute_guards [of "registry_with gated_command" "''test.gated''" gating_config JUndefined None]
    execute_guards [of "registry_with disabled_command" "''test.off''" default_config JUndefined None]
  by (simp add: registry_with_def gated_command_def disabled_command_def makeCommand_def
      default_config_def gating_config_def stock_config_def initial_state_def the_evaluateWhen_def
      the_contextProvider_def buildContext_def prototype_member_def object_prototype_functions_def)

section \<open>The execution context\<close>

lemma chain_args_simps [simp]:
  "chain_args params ctx []"
  "chain_args params ctx (evs @ evs') = (chain_args params ctx evs \<and> chain_args params ctx evs')"
  "chain_args params ctx [FromMw j x]"
  "chain_args params ctx [NextCalled j]"
  "chain_args params ctx [HandlerCalledBy j p c]"
  "chain_args params ctx [MwEntered j p c] = (p = params \<and> c = ctx)"
  "chain_args params ctx [HandlerInvoked p c] = (p = params \<and> c = ctx)"
  by (simp_all add: chain_args_def)









section \<open>Validation, confirmation and the when-clauses\<close>

text \<open>
  Claim C8 at a failing input. The schema turns \<open>{}\<close> into \<open>{ count: 1 }\<close>, and the
  validation middleware accepts \<open>{}\<close> in both configurations; it then calls \<open>next()\<close>,
  which takes no argument, so the handler is invoked with the original \<open>{}\<close> and not
  with the parsed value.
\<close>

theorem validation_drops_parsed_value:
  "schema echo_command = Some count_schema
   \<and> count_schema (JObj []) = Inr (JObj [(''count'', JNum 1)])
   \<and> runMiddleware [createValidationMiddleware \<lparr> catchErrors = Some True \<rparr>] (Definition echo_command)
        (JObj []) empty_context
      = Some (Inr \<lparr> success = True, message = None, data = Some (JObj []) \<rparr>,
              \<lparr> index = 1,
                trace = [MwEntered 0 (JObj []) empty_context, NextCalled 0,
                         HandlerInvoked (JObj []) empty_context] \<rparr>)
   \<and> runMiddleware [createValidationMiddleware \<lparr> catchErrors = None \<rparr>] (Definition echo_command)
        (JObj []) empty_context
      = Some (Inr \<lparr> success = True, message = None, data = Some (JObj []) \<rparr>,
              \<lparr> index = 1,
                trace = [MwEntered 0 (JObj []) empty_context, NextCalled 0,
                         HandlerInvoked (JObj []) empty_context] \<rparr>)"
  by (simp add: echo_command_def makeCommand_def count_schema_def runMiddleware_def
      createValidationMiddleware_def schema_parse_def call_handler_def)

text \<open>
  What holds of the configurable validation middleware: without a schema it goes to
  \<open>next()\<close>; a rejected value is thrown as the \<open>ZodError\<close> by default and returned as a
  failure naming each issue's path and message with \<open>catchErrors\<close>, the handler not
  invoked either way; an accepted value lets the chain go on, with the parameters as
  they were.
\<close>

theorem validation_policies:
  "(schema d = None \<longrightarrow>
      createValidationMiddleware config (Definition d) params ctx = CallNext Done)
   \<and> (\<forall>s zerr. schema d = Some s \<and> s params = Inl zerr \<and> catchErrors config \<noteq> Some True \<longrightarrow>
        runMiddleware [createValidationMiddleware config] (Definition d) params ctx
          = Some (Inl (ZodErr zerr), \<lparr> index = 1, trace = [MwEntered 0 params ctx] \<rparr>))
   \<and> (\<forall>s zerr. schema d = Some s \<and> s params = Inl zerr \<and> catchErrors config = Some True \<longrightarrow>
        runMiddleware [createValidationMiddleware config] (Definition d) params ctx
          = Some (Inr \<lparr> success = False,
                         message = Some (''Validation failed for \"'' @ cmd_id d @ ''\": ''
                                         @ issues_text (issues zerr)),
                         data = None \<rparr>,
                  \<lparr> index = 1, trace = [MwEntered 0 params ctx] \<rparr>))
   \<and> (\<forall>s parsed. schema d = Some s \<and> s params = Inr parsed \<longrightarrow>
        runMiddleware [createValidationMiddleware config] (Definition d) params ctx
          = Some (cmd_execute d params ctx,
                  \<lparr> index = 1,
                    trace = [MwEntered 0 params ctx, NextCalled 0, HandlerInvoked params ctx] \<rparr>))"
  by (auto simp: runMiddleware_def createValidationMiddleware_def schema_parse_def call_handler_def)

theorem validation_policies_witness:
  "schema (makeCommand ''test.ns'') = None
   \<and> createValidationMiddleware \<lparr> catchErrors = Some True \<rparr> (Definition (makeCommand ''test.ns''))
        (JObj []) empty_context
       = CallNext Done
   \<and> schema echo_command = Some count_schema
   \<and> count_schema (JObj [(''count'', JStr ''x'')])
       = Inl (invalid_type [''count''] ''number'' (JStr ''x''))
   \<and> runMiddleware [createValidationMiddleware \<lparr> catchErrors = None \<rparr>] (Definition echo_command)
        (JObj [(''count'', JStr ''x'')]) empty_context
       = Some (Inl (ZodErr (invalid_type [''count''] ''number'' (JStr ''x''))),
               \<lparr> index = 1, trace = [MwEntered 0 (JObj [(''count'', JStr ''x'')]) empty_context] \<rparr>)
   \<and> runMiddleware [createValidationMiddleware \<lparr> catchErrors = Some True \<rparr>] (Definition echo_command)
        (JObj [(''count'', JStr ''x'')]) empty_context
       = Some (Inr \<lparr> success = False,
                      message = Some ''Validation failed for \"test.exec\": count: Expected number, received string'',
                      data = None \<rparr>,
               \<lparr> index = 1, trace = [MwEntered 0 (JObj [(''count'', JStr ''x'')]) empty_context] \<rparr>)
   \<and> count_schema (JObj [(''count'', JNum 2)]) = Inr (JObj [(''count'', JNum 2)])
   \<and> runMiddleware [createValidationMiddleware \<lparr> catchErrors = None \<rparr>] (Definition echo_command)
        (JObj [(''count'', JNum 2)]) empty_context
       = Some (Inr \<lparr> success = True, message = None, data = Some (JObj [(''count'', JNum 2)]) \<rparr>,
               \<lparr> index = 1,
                 trace = [MwEntered 0 (JObj [(''count'', JNum 2)]) empty_context, NextCalled 0,
                          HandlerInvoked (JObj [(''count'', JNum 2)]) empty_context] \<rparr>)"
  using validation_policies [of "makeCommand ''test.ns''" "\<lparr> catchErrors = Some True \<rparr>" "JObj []" empty_context]
    validation_policies [of echo_command "\<lparr> catchErrors = None \<rparr>" "JObj [(''count'', JStr ''x'')]" empty_context]
    validation_policies [of echo_command "\<lparr> catchErrors = Some True \<rparr>" "JObj [(''count'', JStr ''x'')]" empty_context]
    validation_policies [of echo_command "\<lparr> catchErrors = None \<rparr>" "JObj [(''count'', JNum 2)]" empty_context]
  by (simp add: makeCommand_def echo_command_def count_schema_def invalid_type_def zod_type_def
      json_path_def issues_text_def)

text \<open>
  Claim C7 at two failing inputs. The confirmation middleware reads the top-level
  \<open>requiresConfirmation\<close> only. A definition whose flag is set through the policy
  metadata (\<open>resolveMetadata\<close> gives \<open>true\<close>) is run without asking the confirm
  predicate, although it would decline; a definition whose metadata unsets the flag
  (\<open>resolveMetadata\<close> gives \<open>false\<close>: metadata wins) is asked and cancelled.
\<close>

theorem confirmation_ignores_metadata:
  "meta_requiresConfirmation (resolveMetadata policy_confirm_command) = Some True
   \<and> runMiddleware [createConfirmationMiddleware decline] (Definition policy_confirm_command)
        JUndefined empty_context
      = Some (Inr \<lparr> success = True, message = None, data = None \<rparr>,
              \<lparr> index = 1,
                trace = [MwEntered 0 JUndefined empty_context, NextCalled 0,
                         HandlerInvoked JUndefined empty_context] \<rparr>)
   \<and> meta_requiresConfirmation (resolveMetadata policy_waived_command) = Some False
   \<and> runMiddleware [createConfirmationMiddleware decline] (Definition policy_waived_command)
        JUndefined empty_context
      = Some (Inr cancelled,
              \<lparr> index = 1,
                trace = [MwEntered 0 JUndefined empty_context,
                         FromMw 0 (ConfirmAsked ''test.waived'')] \<rparr>)"
  by (simp add: policy_confirm_command_def policy_waived_command_def makeCommand_def
      resolveMetadata_def opt_chain_def runMiddleware_def createConfirmationMiddleware_def
      decline_def call_handler_def)

text \<open>
  What holds of the confirmation middleware, by the top-level \<open>requiresConfirmation\<close>
  it reads: set and declined, the result is exactly
  \<open>{ success: false, message: 'Cancelled by user.' }\<close> and the handler is not invoked;
  set and accepted, the handler runs; not set, the handler runs and the confirm
  predicate is not asked.
\<close>

theorem confirmation_by_flag:
  "(requiresConfirmation d = Some True \<and> confirmFn (Definition d) = Inr False \<longrightarrow>
      runMiddleware [createConfirmationMiddleware confirmFn] (Definition d) params ctx
        = Some (Inr \<lparr> success = False, message = Some ''Cancelled by user.'', data = None \<rparr>,
                \<lparr> index = 1,
                  trace = [MwEntered 0 params ctx, FromMw 0 (ConfirmAsked (cmd_id d))] \<rparr>))
   \<and> (requiresConfirmation d = Some True \<and> confirmFn (Definition d) = Inr True \<longrightarrow>
      runMiddleware [createConfirmationMiddleware confirmFn] (Definition d) params ctx
        = Some (cmd_execute d params ctx,
                \<lparr> index = 1,
                  trace = [MwEntered 0 params ctx, FromMw 0 (ConfirmAsked (cmd_id d)),
                           NextCalled 0, HandlerInvoked params ctx] \<rparr>))
   \<and> (requiresConfirmation d \<noteq> Some True \<longrightarrow>
      runMiddleware [createConfirmationMiddleware confirmFn] (Definition d) params ctx
        = Some (cmd_execute d params ctx,
                \<lparr> index = 1,
                  trace = [MwEntered 0 params ctx, NextCalled 0, HandlerInvoked params ctx] \<rparr>))"
  by (simp add: runMiddleware_def createConfirmationMiddleware_def cancelled_def call_handler_def)

theorem confirmation_by_flag_witness:
  "requiresConfirmation ((makeCommand ''test.confirm'')\<lparr> requiresConfirmation := Some True \<rparr>) = Some True
   \<and> decline (Definition ((makeCommand ''test.confirm'')\<lparr> requiresConfirmation := Some True \<rparr>)) = Inr False
   \<and> runMiddleware [createConfirmationMiddleware decline]
        (Definition ((makeCommand ''test.confirm'')\<lparr> requiresConfirmation := Some True \<rparr>))
        JUndefined empty_context
      = Some (Inr \<lparr> success = False, message = Some ''Cancelled by user.'', data = None \<rparr>,
              \<lparr> index = 1,
                trace = [MwEntered 0 JUndefined empty_context, FromMw 0 (ConfirmAsked ''test.confirm'')] \<rparr>)
   \<and> accept (Definition ((makeCommand ''test.confirm'')\<lparr> requiresConfirmation := Some True \<rparr>)) = Inr True
   \<and> runMiddleware [createConfirmationMiddleware accept]
        (Definition ((makeCommand ''test.confirm'')\<lparr> requiresConfirmation := Some True \<rparr>))
        JUndefined empty_context
      = Some (Inr \<lparr> success = True, message = None, data = None \<rparr>,
              \<lparr> index = 1,
                trace = [MwEntered 0 JUndefined empty_context, FromMw 0 (ConfirmAsked ''test.confirm''),
                         NextCalled 0, HandlerInvoked JUndefined empty_context] \<rparr>)
   \<and> requiresConfirmation (makeCommand ''test.noconfirm'') \<noteq> Some True
   \<and> runMiddleware [createConfirmationMiddleware decline] (Definition (makeCommand ''test.noconfirm''))
        JUndefined empty_context
      = Some (Inr \<lparr> success = True, message = None, data = None \<rparr>,
              \<lparr> index = 1,
                trace = [MwEntered 0 JUndefined empty_context, NextCalled 0,
                         HandlerInvoked JUndefined empty_context] \<rparr>)"
  using confirmation_by_flag [of "(makeCommand ''test.confirm'')\<lparr> requiresConfirmation := Some True \<rparr>"
      decline JUndefined empty_context]
    confirmation_by_flag [of "(makeCommand ''test.confirm'')\<lparr> requiresConfirmation := Some True \<rparr>"
      accept JUndefined empty_context]
    confirmation_by_flag [of "makeCommand ''test.noconfirm''" decline JUndefined empty_context]
  by (simp add: makeCommand_def decline_def accept_def)

text \<open>
  Claim C6 at a failing input. With \<open>a\<close> and \<open>b\<close> both true, \<open>!a\<close> is false and
  \<open>b\<close> is true, so their conjunction is false; the evaluator tests the leading \<open>!\<close>
  first and looks up the key \<open>a && b\<close>, which is absent, so \<open>!a && b\<close> is true.
  In the other order, \<open>b && !a\<close>, the clause is split and evaluates to false.
\<close>

theorem leading_negation_swallows_conjunction:
  "sample_evaluateWhen flags_env ''!a'' = False
   \<and> sample_evaluateWhen flags_env ''b'' = True
   \<and> sample_evaluateWhen flags_env ''!a && b'' = True
   \<and> sample_evaluateWhen flags_env ''b && !a'' = False"
  by (simp add: sample_evaluateWhen.simps startsWith_bang_def env_lookup_def flags_env_def
      trim_def is_ws_def prototype_member_def object_prototype_functions_def)

lemma split2_skip:
  "list_all (\<lambda>c. c \<noteq> a) k \<Longrightarrow> rest \<noteq> [] \<Longrightarrow> split2 a b acc (k @ rest) = split2 a b (acc @ k) rest"
proof (induction k arbitrary: acc)
  case Nil
  then show ?case by simp
next
  case (Cons c k)
  from Cons.prems obtain y ys where "k @ rest = y # ys" by (cases "k @ rest") auto
  with Cons show ?case by simp
qed

lemma split2_none:
  "list_all (\<lambda>c. c \<noteq> a) k \<Longrightarrow> split2 a b acc k = [acc @ k]"
proof (induction k arbitrary: acc)
  case Nil
  then show ?case by simp
next
  case (Cons c k)
  then show ?case by (cases k) auto
qed

lemma includes2_none:
  "list_all (\<lambda>c. c \<noteq> a) k \<Longrightarrow> \<not> includes2 a b k"
  by (induction a b k rule: includes2.induct) auto

lemma includes2_append:
  "includes2 a b (k @ a # b # rest)"
proof (induction k)
  case Nil
  then show ?case by simp
next
  case (Cons c k)
  then show ?case by (cases "k @ a # b # rest") auto
qed

lemma key_like_facts:
  assumes "key_like k"
  shows "list_all (\<lambda>c. c \<noteq> CHR ''&'') k" "list_all (\<lambda>c. c \<noteq> CHR ''|'') k"
    "\<not> startsWith_bang k" "k \<noteq> []" "\<not> is_ws (hd k)" "\<not> is_ws (last k)"
  using assms by (auto simp: key_like_def key_char_def list_all_iff startsWith_bang_def split: list.splits)

lemma env_lookup_key: "key_like k \<Longrightarrow> env_lookup env k = (env k = Some True)"
  by (auto simp: env_lookup_def key_like_def split: option.splits)

lemma is_ws_space [simp]: "is_ws CHR '' ''"
  by (simp add: is_ws_def)

lemma dropWhile_hd: "k \<noteq> [] \<Longrightarrow> \<not> P (hd k) \<Longrightarrow> dropWhile P (k @ r) = k @ r"
  by (cases k) auto

lemma trim_key_space: "key_like k \<Longrightarrow> trim (k @ '' '') = k"
proof -
  assume k: "key_like k"
  from key_like_facts(4,5) [OF k] have "dropWhile is_ws (k @ '' '') = k @ '' ''"
    by (rule dropWhile_hd)
  moreover from key_like_facts(4,6) [OF k] have "dropWhile is_ws (rev k) = rev k"
    by (cases "rev k") (auto simp: last_rev [symmetric] hd_rev)
  ultimately show ?thesis by (simp add: trim_def)
qed

lemma trim_space_key: "key_like k \<Longrightarrow> trim (CHR '' '' # k) = k"
proof -
  assume k: "key_like k"
  from key_like_facts(4,5) [OF k] have "dropWhile is_ws (CHR '' '' # k) = k"
    by (cases k) auto
  moreover from key_like_facts(4,6) [OF k] have "dropWhile is_ws (rev k) = rev k"
    by (cases "rev k") (auto simp: hd_rev)
  ultimately show ?thesis by (simp add: trim_def)
qed

lemma sample_bare_key: "key_like k \<Longrightarrow> sample_evaluateWhen env k = (env k = Some True)"
  using key_like_facts [of k]
  by (simp add: sample_evaluateWhen.simps includes2_none env_lookup_key)

lemma split2_joined:
  assumes a: "key_like a" and b: "key_like b" and s: "s \<noteq> CHR '' ''"
    and na: "list_all (\<lambda>c. c \<noteq> s) a" and nb: "list_all (\<lambda>c. c \<noteq> s) b"
  shows "split2 s s [] (a @ [CHR '' '', s, s, CHR '' ''] @ b) = [a @ '' '', '' '' @ b]"
proof -
  have "split2 s s [] (a @ [CHR '' '', s, s, CHR '' ''] @ b)
      = split2 s s a ([CHR '' '', s, s, CHR '' ''] @ b)"
    using split2_skip [OF na, of "[CHR '' '', s, s, CHR '' ''] @ b" s "[]"] by simp
  also have "\<dots> = split2 s s (a @ '' '') ([s, s, CHR '' ''] @ b)"
    using s by simp
  also have "\<dots> = (a @ '' '') # split2 s s [] (CHR '' '' # b)" by simp
  also have "split2 s s [] (CHR '' '' # b) = ['' '' @ b]"
    using split2_none [of s "CHR '' '' # b" s "[]"] nb s by simp
  finally show ?thesis by simp
qed

text \<open>
  What holds of the sample evaluator on identifier-like keys \<open>a\<close> and \<open>b\<close>: \<open>a\<close> is
  the value of the environment (false when absent), \<open>!a\<close> its negation, \<open>a && b\<close> the
  conjunction and \<open>a || b\<close> the disjunction of the two values.
\<close>

theorem sample_evaluateWhen_keys:
  "key_like a \<and> key_like b \<longrightarrow>
     sample_evaluateWhen env a = (env a = Some True)
   \<and> sample_evaluateWhen env (CHR ''!'' # a) = (env a \<noteq> Some True)
   \<and> sample_evaluateWhen env (a @ '' && '' @ b) = (env a = Some True \<and> env b = Some True)
   \<and> sample_evaluateWhen env (a @ '' || '' @ b) = (env a = Some True \<or> env b = Some True)"
proof (intro impI conjI)
  assume ab: "key_like a \<and> key_like b"
  then have a: "key_like a" and b: "key_like b" by simp_all
  show "sample_evaluateWhen env a = (env a = Some True)" by (rule sample_bare_key [OF a])
  show "sample_evaluateWhen env (CHR ''!'' # a) = (env a \<noteq> Some True)"
    by (simp add: sample_evaluateWhen.simps startsWith_bang_def env_lookup_key [OF a])
  have nb: "\<not> startsWith_bang (a @ r)" for r
    using key_like_facts(3,4) [OF a] by (cases a) (simp_all add: startsWith_bang_def)
  have inc_and: "includes2 CHR ''&'' CHR ''&'' (a @ '' && '' @ b)"
    using includes2_append [of "CHR ''&''" "CHR ''&''" "a @ '' ''" "'' '' @ b"] by simp
  have sp_and: "split2 CHR ''&'' CHR ''&'' [] (a @ '' && '' @ b) = [a @ '' '', '' '' @ b]"
    using split2_joined [OF a b, of "CHR ''&''"] key_like_facts(1) [OF a] key_like_facts(1) [OF b]
    by simp
  show "sample_evaluateWhen env (a @ '' && '' @ b) = (env a = Some True \<and> env b = Some True)"
    using nb [of "'' && '' @ b"] inc_and sp_and
    by (subst sample_evaluateWhen.simps)
       (simp add: trim_key_space [OF a] trim_space_key [OF b] sample_bare_key [OF a] sample_bare_key [OF b])
  have no_and: "\<not> includes2 CHR ''&'' CHR ''&'' (a @ '' || '' @ b)"
    using key_like_facts(1) [OF a] key_like_facts(1) [OF b]
    by (intro includes2_none) simp
  have inc_or: "includes2 CHR ''|'' CHR ''|'' (a @ '' || '' @ b)"
    using includes2_append [of "CHR ''|''" "CHR ''|''" "a @ '' ''" "'' '' @ b"] by simp
  have sp_or: "split2 CHR ''|'' CHR ''|'' [] (a @ '' || '' @ b) = [a @ '' '', '' '' @ b]"
    using split2_joined [OF a b, of "CHR ''|''"] key_like_facts(2) [OF a] key_like_facts(2) [OF b]
    by simp
  show "sample_evaluateWhen env (a @ '' || '' @ b) = (env a = Some True \<or> env b = Some True)"
    using nb [of "'' || '' @ b"] no_and inc_or sp_or
    by (subst sample_evaluateWhen.simps)
       (simp add: trim_key_space [OF a] trim_space_key [OF b] sample_bare_key [OF a] sample_bare_key [OF b])
qed

theorem sample_evaluateWhen_keys_witness:
  "key_like ''a'' \<and> key_like ''b''
   \<and> sample_evaluateWhen [''a'' \<mapsto> True] ''a'' = True
   \<and> sample_evaluateWhen [''a'' \<mapsto> True] ''b'' = False
   \<and> sample_evaluateWhen [''a'' \<mapsto> True] ''!a'' = False
   \<and> sample_evaluateWhen [''a'' \<mapsto> True] ''a && b'' = False
   \<and> sample_evaluateWhen [''a'' \<mapsto> True] ''a || b'' = True"
  using sample_evaluateWhen_keys [of "''a''" "''b''" "[''a'' \<mapsto> True]"]
    sample_evaluateWhen_keys [of "''b''" "''a''" "[''a'' \<mapsto> True]"]
  by (simp add: key_like_def key_char_def is_ws_def prototype_member_def object_prototype_functions_def)

text \<open>
  A key that names a member of \<open>Object.prototype\<close> is not identifier-like in this
  sense: the environment inherits it, and the evaluator reads it as true.
\<close>

lemma sample_evaluateWhen_inherited_keys:
  "sample_evaluateWhen Map.empty ''constructor'' = True
   \<and> sample_evaluateWhen Map.empty ''!constructor'' = False"
  by (simp add: sample_evaluateWhen.simps startsWith_bang_def env_lookup_def
      prototype_member_def object_prototype_functions_def)

text \<open>
  A registry configured without an evaluator accepts every when-clause: a registered
  command is available and the when-guard of \<open>execute\<close> never blocks it.
\<close>

theorem permissive_default:
  "evaluateWhen config = None \<and> own (commands st) i = Some d \<longrightarrow>
     isAvailable config st i = Inr True \<and> when_guard config (Definition d) = Inr None"
  by (auto simp: isAvailable_def the_evaluateWhen_def get_property_def split: option.splits)

theorem permissive_default_witness:
  "evaluateWhen default_config = None
   \<and> own (commands (registry_with gated_command)) ''test.gated'' = Some gated_command
   \<and> when_clause gated_command = Some ''false''
   \<and> isAvailable default_config (registry_with gated_command) ''test.gated'' = Inr True
   \<and> when_guard default_config (Definition gated_command) = Inr None"
  using permissive_default [of default_config "registry_with gated_command" "''test.gated''" gated_command]
  by (simp add: default_config_def registry_with_def gated_command_def makeCommand_def)

end
